theory Spec2Isabelle
  imports Complex_Main "HOL-Library.AList" "HOL-Library.List_Lexorder" "HOL-Library.Char_ord"
begin

section \<open>Tables of actions\<close>

text \<open>
  The notebook \<^verbatim>\<open>tutorial2-generate-features.ipynb\<close> works on pandas tables. A table is
  modelled column by column, as the code reads and writes it: a list of named columns, each
  a list of cells, one cell per action of the match (row \<open>i\<close> is the \<open>i\<close>-th action; the
  index of every table is \<open>0..n-1\<close>, as \<^verbatim>\<open>reset_index\<close> leaves it).

  A cell is a number, a string, a boolean or the missing value \<^verbatim>\<open>NaN\<close>. Numbers are
  the exact reals: rounding of the 64-bit floats is not modelled.
\<close>

datatype cell = Num real | Str string | Flag bool | NaN

text \<open>
  Column names built by the code with an f-string keep their parts:
  \<open>Delayed c s\<close> is the name \<^verbatim>\<open>f'{c}-{s}'\<close> and \<open>Ahead c i\<close> is \<^verbatim>\<open>f'{c}+{i}'\<close>.
\<close>

datatype colname = Plain string | Delayed string nat | Ahead string nat

type_synonym column = "cell list"
type_synonym frame = "(colname \<times> column) list"

datatype error = KeyError | TypeError | ValueError

definition and_then :: "error + 'a \<Rightarrow> ('a \<Rightarrow> error + 'b) \<Rightarrow> error + 'b" where
  "and_then m f = (case m of Inl e \<Rightarrow> Inl e | Inr x \<Rightarrow> f x)"

text \<open>\<^verbatim>\<open>df[c]\<close>: reading a column that the table does not have raises \<^verbatim>\<open>KeyError\<close>.\<close>

definition getcol :: "frame \<Rightarrow> colname \<Rightarrow> error + column" where
  "getcol df c = (case map_of df c of None \<Rightarrow> Inl KeyError | Some xs \<Rightarrow> Inr xs)"

text \<open>\<^verbatim>\<open>df[c] = values\<close>: replaces the column in place, or appends a new last column.\<close>

definition setcol :: "frame \<Rightarrow> colname \<Rightarrow> error + column \<Rightarrow> error + frame" where
  "setcol df c v = and_then v (\<lambda>xs. Inr (AList.update c xs df))"

subsection \<open>Element-wise operations\<close>

text \<open>
  A column is numeric when it holds numbers and missing values only (the dtypes
  \<^verbatim>\<open>int64\<close> and \<^verbatim>\<open>float64\<close>). Arithmetic with a missing value gives a missing value;
  arithmetic on a column holding strings raises \<^verbatim>\<open>TypeError\<close>.
\<close>

fun is_numeric :: "cell \<Rightarrow> bool" where
  "is_numeric (Num x) = True"
| "is_numeric NaN = True"
| "is_numeric _ = False"

fun is_flag :: "cell \<Rightarrow> bool" where
  "is_flag (Flag b) = True"
| "is_flag _ = False"

definition numeric :: "column \<Rightarrow> bool" where
  "numeric xs = list_all is_numeric xs"

definition flags :: "column \<Rightarrow> bool" where
  "flags xs = list_all is_flag xs"

fun cell_arith :: "(real \<Rightarrow> real \<Rightarrow> real) \<Rightarrow> cell \<Rightarrow> cell \<Rightarrow> cell" where
  "cell_arith f (Num x) (Num y) = Num (f x y)"
| "cell_arith f _ _ = NaN"

text \<open>Python's \<^verbatim>\<open>==\<close> on two cells; \<^verbatim>\<open>NaN\<close> equals nothing, itself included.\<close>

fun cell_eq :: "cell \<Rightarrow> cell \<Rightarrow> bool" where
  "cell_eq (Num x) (Num y) = (x = y)"
| "cell_eq (Str s) (Str t) = (s = t)"
| "cell_eq (Flag a) (Flag b) = (a = b)"
| "cell_eq (Flag a) (Num y) = (of_bool a = y)"
| "cell_eq (Num x) (Flag b) = (x = of_bool b)"
| "cell_eq _ _ = False"

text \<open>\<^verbatim>\<open>a + b\<close>, \<^verbatim>\<open>a - b\<close> on two columns of one table.\<close>

definition arith2 :: "(real \<Rightarrow> real \<Rightarrow> real) \<Rightarrow> error + column \<Rightarrow> error + column \<Rightarrow> error + column" where
  "arith2 f a b = and_then a (\<lambda>xs. and_then b (\<lambda>ys.
     if numeric xs \<and> numeric ys then Inr (map2 (cell_arith f) xs ys) else Inl TypeError))"

text \<open>\<^verbatim>\<open>a >= r\<close> for a number \<open>r\<close>: a missing value compares false.\<close>

fun cell_ge :: "real \<Rightarrow> cell \<Rightarrow> cell" where
  "cell_ge r (Num x) = Flag (r \<le> x)"
| "cell_ge r _ = Flag False"

definition ge_scalar :: "error + column \<Rightarrow> real \<Rightarrow> error + column" where
  "ge_scalar a r = and_then a (\<lambda>xs.
     if numeric xs then Inr (map (cell_ge r) xs) else Inl TypeError)"

text \<open>\<^verbatim>\<open>a == r\<close> for a number \<open>r\<close>; never raises.\<close>

definition eq_scalar :: "error + column \<Rightarrow> real \<Rightarrow> error + column" where
  "eq_scalar a r = and_then a (\<lambda>xs. Inr (map (\<lambda>c. Flag (cell_eq c (Num r))) xs))"

text \<open>\<^verbatim>\<open>a * r\<close> for a boolean column \<open>a\<close> and a number \<open>r\<close>: \<^verbatim>\<open>True\<close> counts as 1.\<close>

fun cell_times :: "real \<Rightarrow> cell \<Rightarrow> cell" where
  "cell_times r (Flag b) = Num (of_bool b * r)"
| "cell_times r (Num x) = Num (x * r)"
| "cell_times r _ = NaN"

definition times_scalar :: "error + column \<Rightarrow> real \<Rightarrow> error + column" where
  "times_scalar a r = and_then a (\<lambda>xs.
     if numeric xs \<or> flags xs then Inr (map (cell_times r) xs) else Inl TypeError)"

section \<open>Elapsed match time\<close>

text \<open>
  \<^verbatim>\<open>
  def add_time_played(df_actions):
      df_actions['time_played'] = (df_actions['time_seconds'] +
                               (df_actions['period_id'] >= 2) * (45 * 60) +
                               (df_actions['period_id'] >= 3) * (15 * 60) +
                               (df_actions['period_id'] == 4) * (15 * 60)
                               )
  \<close>
\<close>

definition add_time_played :: "frame \<Rightarrow> error + frame" where
  "add_time_played df_actions =
     setcol df_actions (Plain ''time_played'')
       (arith2 (+)
         (arith2 (+)
           (arith2 (+)
             (getcol df_actions (Plain ''time_seconds''))
             (times_scalar (ge_scalar (getcol df_actions (Plain ''period_id'')) 2) (45 * 60)))
           (times_scalar (ge_scalar (getcol df_actions (Plain ''period_id'')) 3) (15 * 60)))
         (times_scalar (eq_scalar (getcol df_actions (Plain ''period_id'')) 4) (15 * 60)))"

section \<open>Windows of preceding actions\<close>

text \<open>
  \<^verbatim>\<open>df[features_to_delay]\<close>: the listed columns, in the order of the list; a name the
  table does not have raises \<^verbatim>\<open>KeyError\<close>.
\<close>

fun select :: "frame \<Rightarrow> string list \<Rightarrow> error + (string \<times> column) list" where
  "select df [] = Inr []"
| "select df (c # cs) =
     and_then (getcol df (Plain c)) (\<lambda>xs.
     and_then (select df cs) (\<lambda>rest. Inr ((c, xs) # rest)))"

text \<open>
  \<^verbatim>\<open>Series.shift(periods)\<close>: the values move down by \<open>periods\<close> rows (up when it is
  negative); the rows left empty hold \<^verbatim>\<open>NaN\<close>, the values pushed out are dropped.
\<close>

definition shift :: "int \<Rightarrow> column \<Rightarrow> column" where
  "shift periods xs =
     (if 0 \<le> periods
      then replicate (min (nat periods) (length xs)) NaN @ take (length xs - nat periods) xs
      else drop (nat (- periods)) xs @ replicate (min (nat (- periods)) (length xs)) NaN)"

text \<open>
  \<^verbatim>\<open>
  def create_delayed_features(df_actions, features_to_delay, delays):
      df_delays = [df_actions[features_to_delay].shift(step).add_suffix(f'-{step}')
                   for step in range(0, delays)]
      return pd.concat(df_delays, axis=1)
  \<close>
  \<^verbatim>\<open>pd.concat\<close> of an empty list raises \<^verbatim>\<open>ValueError\<close>.
\<close>

definition delayed :: "(string \<times> column) list \<Rightarrow> nat \<Rightarrow> frame" where
  "delayed sel step = map (\<lambda>(c, xs). (Delayed c step, shift (int step) xs)) sel"

definition create_delayed_features :: "frame \<Rightarrow> string list \<Rightarrow> nat \<Rightarrow> error + frame" where
  "create_delayed_features df_actions features_to_delay delays =
     (if delays = 0 then Inl ValueError
      else and_then (select df_actions features_to_delay) (\<lambda>sel.
             Inr (concat (map (delayed sel) [0..<delays]))))"

text \<open>A \<^verbatim>\<open>for\<close> loop whose body updates the table in place; an exception ends it.\<close>

fun for_each :: "('a \<Rightarrow> frame \<Rightarrow> error + frame) \<Rightarrow> 'a list \<Rightarrow> frame \<Rightarrow> error + frame" where
  "for_each body [] df = Inr df"
| "for_each body (x # xs) df = and_then (body x df) (for_each body xs)"

section \<open>Coordinate normalisation\<close>

definition PITCH_LENGTH :: real where "PITCH_LENGTH = 105"
definition PITCH_WIDTH :: real where "PITCH_WIDTH = 68"
definition GOAL_X :: real where "GOAL_X = PITCH_LENGTH"
definition GOAL_Y :: real where "GOAL_Y = PITCH_WIDTH / 2"

text \<open>\<^verbatim>\<open>a == b\<close> on two columns of one table; never raises.\<close>

definition eq_cols :: "error + column \<Rightarrow> error + column \<Rightarrow> error + column" where
  "eq_cols a b = and_then a (\<lambda>xs. and_then b (\<lambda>ys.
     Inr (map2 (\<lambda>x y. Flag (cell_eq x y)) xs ys)))"

text \<open>
  \<^verbatim>\<open>
  def add_same_team(df_features, delays):
      for step in range(1, delays):
          df_features[f'team-{step}'] = df_features['team_id-0'] == df_features[f'team_id-{step}']
  \<close>
\<close>

definition same_team_step :: "nat \<Rightarrow> frame \<Rightarrow> error + frame" where
  "same_team_step step df_features =
     setcol df_features (Delayed ''team'' step)
       (eq_cols (getcol df_features (Delayed ''team_id'' 0))
                (getcol df_features (Delayed ''team_id'' step)))"

definition add_same_team :: "frame \<Rightarrow> nat \<Rightarrow> error + frame" where
  "add_same_team df_features delays = for_each same_team_step [1..<delays] df_features"

text \<open>\<^verbatim>\<open>~a\<close> on a boolean column.\<close>

fun cell_not :: "cell \<Rightarrow> cell" where
  "cell_not (Flag b) = Flag (\<not> b)"
| "cell_not c = c"

definition not_col :: "error + column \<Rightarrow> error + column" where
  "not_col a = and_then a (\<lambda>xs. if flags xs then Inr (map cell_not xs) else Inl TypeError)"

text \<open>A function of one number applied to a numeric column, such as \<^verbatim>\<open>r - a\<close>, \<^verbatim>\<open>a / r\<close>,
  \<^verbatim>\<open>abs(a)\<close> and \<^verbatim>\<open>a ** 2\<close>.\<close>

fun cell_map :: "(real \<Rightarrow> real) \<Rightarrow> cell \<Rightarrow> cell" where
  "cell_map f (Num x) = Num (f x)"
| "cell_map f c = NaN"

definition map_num :: "(real \<Rightarrow> real) \<Rightarrow> error + column \<Rightarrow> error + column" where
  "map_num f a = and_then a (\<lambda>xs. if numeric xs then Inr (map (cell_map f) xs) else Inl TypeError)"

text \<open>
  \<^verbatim>\<open>df.loc[mask, c] = values\<close>: the rows where the mask is true take the value of the same
  row of \<open>values\<close>; the other rows keep theirs.
\<close>

definition masked :: "column \<Rightarrow> column \<Rightarrow> column \<Rightarrow> column" where
  "masked ms vs old = map (\<lambda>(m, v, x). if m = Flag True then v else x) (zip ms (zip vs old))"

definition loc_assign :: "frame \<Rightarrow> error + column \<Rightarrow> colname \<Rightarrow> error + column \<Rightarrow> error + frame" where
  "loc_assign df rows c vals =
     and_then vals (\<lambda>vs. and_then rows (\<lambda>ms. and_then (getcol df c) (\<lambda>old.
       Inr (AList.update c (masked ms vs old) df))))"

text \<open>
  \<^verbatim>\<open>
  def invert_coordinates(df_features, delays):
      for step in range(1, delays):
          for side in ['start', 'end']:
              df_features.loc[~(df_features[f'team-{step}']), f'{side}_x-{step}'] = PITCH_LENGTH - df_features[f'{side}_x-{step}']
              df_features.loc[~(df_features[f'team-{step}']), f'{side}_y-{step}'] = PITCH_WIDTH - df_features[f'{side}_y-{step}']
  \<close>
\<close>

definition invert_side :: "nat \<Rightarrow> string \<Rightarrow> frame \<Rightarrow> error + frame" where
  "invert_side step side df_features =
     and_then
       (loc_assign df_features (not_col (getcol df_features (Delayed ''team'' step)))
          (Delayed (side @ ''_x'') step)
          (map_num (\<lambda>x. PITCH_LENGTH - x) (getcol df_features (Delayed (side @ ''_x'') step))))
       (\<lambda>df_features.
         loc_assign df_features (not_col (getcol df_features (Delayed ''team'' step)))
           (Delayed (side @ ''_y'') step)
           (map_num (\<lambda>y. PITCH_WIDTH - y) (getcol df_features (Delayed (side @ ''_y'') step))))"

definition invert_step :: "nat \<Rightarrow> frame \<Rightarrow> error + frame" where
  "invert_step step df_features = for_each (invert_side step) [''start'', ''end''] df_features"

definition invert_coordinates :: "frame \<Rightarrow> nat \<Rightarrow> error + frame" where
  "invert_coordinates df_features delays = for_each invert_step [1..<delays] df_features"

section \<open>Location features\<close>

text \<open>\<^verbatim>\<open>np.sqrt\<close>: the square root of a negative number is \<^verbatim>\<open>NaN\<close>.\<close>

fun cell_sqrt :: "cell \<Rightarrow> cell" where
  "cell_sqrt (Num x) = (if x < 0 then NaN else Num (sqrt x))"
| "cell_sqrt c = NaN"

definition sqrt_col :: "error + column \<Rightarrow> error + column" where
  "sqrt_col a = and_then a (\<lambda>xs. if numeric xs then Inr (map cell_sqrt xs) else Inl TypeError)"

text \<open>
  \<^verbatim>\<open>np.divide(a, b, out=np.zeros_like(a), where=(b != 0))\<close>: the quotient in the rows where
  \<^verbatim>\<open>b != 0\<close> holds, and the 0 of \<open>out\<close> in the others. \<^verbatim>\<open>NaN != 0\<close> holds.

  The buffer \<open>out\<close> has the dtype of \<open>a\<close>, and this is the one place of the notebook where
  the dtype decides the values. The cells of a column do not record its dtype (an int64
  column and a float64 column of whole numbers have the same cells), so the dtype of \<open>a\<close>
  is an argument. A float64 buffer takes the quotient as it is. An int64 buffer cannot hold
  it: numpy refuses the cast of the float64 result (\<^verbatim>\<open>UFuncTypeError\<close>, a
  \<^verbatim>\<open>TypeError\<close>), and the pandas versions that apply \<open>out\<close> themselves store the
  quotient truncated toward zero, a \<^verbatim>\<open>NaN\<close> quotient as the smallest int64 (what the
  cast gives on x86-64). Which of the two the installed library does is the argument
  \<open>io\<close>. Of the dtypes a numeric column can have, only float64 and int64 are modelled.
\<close>

datatype dtype = Float64 | Int64

datatype int_out = Refuses | Truncates

definition cell_divide_where :: "cell \<Rightarrow> cell \<Rightarrow> cell" where
  "cell_divide_where x y = (if \<not> cell_eq y (Num 0) then cell_arith (/) x y else Num 0)"

fun cell_to_int64 :: "cell \<Rightarrow> cell" where
  "cell_to_int64 (Num q) = Num (of_int (if 0 \<le> q then \<lfloor>q\<rfloor> else \<lceil>q\<rceil>))"
| "cell_to_int64 c = Num (- (2 ^ 63))"

definition divide_where ::
  "dtype \<Rightarrow> int_out \<Rightarrow> error + column \<Rightarrow> error + column \<Rightarrow> error + column" where
  "divide_where out_dtype io a b = and_then a (\<lambda>xs. and_then b (\<lambda>ys.
     if numeric xs \<and> numeric ys then
       (case out_dtype of
          Float64 \<Rightarrow> Inr (map2 cell_divide_where xs ys)
        | Int64 \<Rightarrow> (case io of
            Refuses \<Rightarrow> Inl TypeError
          | Truncates \<Rightarrow> Inr (map cell_to_int64 (map2 cell_divide_where xs ys))))
     else Inl TypeError))"

text \<open>
  \<^verbatim>\<open>
  def add_location_features(df_features, delays):
      for step in range(0, delays):
          for side in ['start', 'end']:
              # Normalize the X location
              key_x = f'{side}_x'
              df_features[f'{key_x}_norm-{step}'] = df_features[f'{key_x}-{step}'] / PITCH_LENGTH

              # Normalize the Y location
              key_y = f'{side}_y'
              df_features[f'{key_y}_norm-{step}'] = df_features[f'{key_y}-{step}'] / PITCH_WIDTH

              diff_x = GOAL_X - df_features[f'{side}_x-{step}']
              diff_y = abs(GOAL_Y - df_features[f'{side}_y-{step}'])
              df_features[f'{side}_distance_to_goal-{step}'] = np.sqrt(diff_x ** 2 + diff_y ** 2)
              df_features[f'{side}_angle_to_goal-{step}'] = np.divide(diff_x, diff_y, out=np.zeros_like(diff_x), where=(diff_y != 0))

              df_features[f'diff_x-{step}'] = df_features[f'end_x-{step}'] - df_features[f'start_x-{step}']
              df_features[f'diff_y-{step}'] = df_features[f'end_y-{step}'] - df_features[f'start_y-{step}']
              df_features[f'distance_covered-{step}'] = np.sqrt((df_features[f'end_x-{step}'] - df_features[f'start_x-{step}']) ** 2 +
                                               (df_features[f'end_y-{step}'] - df_features[f'start_y-{step}']) ** 2)
  \<close>
\<close>

definition diff_x_of :: "frame \<Rightarrow> string \<Rightarrow> nat \<Rightarrow> error + column" where
  "diff_x_of df_features side step =
     map_num (\<lambda>x. GOAL_X - x) (getcol df_features (Delayed (side @ ''_x'') step))"

definition diff_y_of :: "frame \<Rightarrow> string \<Rightarrow> nat \<Rightarrow> error + column" where
  "diff_y_of df_features side step =
     map_num abs (map_num (\<lambda>y. GOAL_Y - y) (getcol df_features (Delayed (side @ ''_y'') step)))"

text \<open>
  \<open>dtypes\<close> gives the dtype of each column of \<open>df_features\<close>. \<^verbatim>\<open>GOAL_X\<close> is the Python
  int 105, so \<^verbatim>\<open>diff_x\<close> has the dtype of the x column; \<^verbatim>\<open>GOAL_Y\<close> is the float 34.0.
\<close>

definition location_side ::
  "(colname \<Rightarrow> dtype) \<Rightarrow> int_out \<Rightarrow> nat \<Rightarrow> string \<Rightarrow> frame \<Rightarrow> error + frame" where
  "location_side dtypes io step side df0 =
     and_then (setcol df0 (Delayed (side @ ''_x_norm'') step)
                 (map_num (\<lambda>x. x / PITCH_LENGTH) (getcol df0 (Delayed (side @ ''_x'') step)))) (\<lambda>df1.
     and_then (setcol df1 (Delayed (side @ ''_y_norm'') step)
                 (map_num (\<lambda>y. y / PITCH_WIDTH) (getcol df1 (Delayed (side @ ''_y'') step)))) (\<lambda>df2.
     and_then (setcol df2 (Delayed (side @ ''_distance_to_goal'') step)
                 (sqrt_col (arith2 (+) (map_num (\<lambda>d. d ^ 2) (diff_x_of df2 side step))
                                        (map_num (\<lambda>d. d ^ 2) (diff_y_of df2 side step))))) (\<lambda>df3.
     and_then (setcol df3 (Delayed (side @ ''_angle_to_goal'') step)
                 (divide_where (dtypes (Delayed (side @ ''_x'') step)) io
                    (diff_x_of df2 side step) (diff_y_of df2 side step))) (\<lambda>df4.
     and_then (setcol df4 (Delayed ''diff_x'' step)
                 (arith2 (-) (getcol df4 (Delayed ''end_x'' step))
                             (getcol df4 (Delayed ''start_x'' step)))) (\<lambda>df5.
     and_then (setcol df5 (Delayed ''diff_y'' step)
                 (arith2 (-) (getcol df5 (Delayed ''end_y'' step))
                             (getcol df5 (Delayed ''start_y'' step)))) (\<lambda>df6.
     setcol df6 (Delayed ''distance_covered'' step)
       (sqrt_col (arith2 (+)
          (map_num (\<lambda>d. d ^ 2) (arith2 (-) (getcol df6 (Delayed ''end_x'' step))
                                             (getcol df6 (Delayed ''start_x'' step))))
          (map_num (\<lambda>d. d ^ 2) (arith2 (-) (getcol df6 (Delayed ''end_y'' step))
                                             (getcol df6 (Delayed ''start_y'' step))))))))))))"

definition location_step ::
  "(colname \<Rightarrow> dtype) \<Rightarrow> int_out \<Rightarrow> nat \<Rightarrow> frame \<Rightarrow> error + frame" where
  "location_step dtypes io step df_features =
     for_each (location_side dtypes io step) [''start'', ''end''] df_features"

definition add_location_features ::
  "(colname \<Rightarrow> dtype) \<Rightarrow> int_out \<Rightarrow> frame \<Rightarrow> nat \<Rightarrow> error + frame" where
  "add_location_features dtypes io df_features delays =
     for_each (location_step dtypes io) [0..<delays] df_features"

section \<open>Sequence features\<close>

text \<open>
  \<^verbatim>\<open>
  def add_sequence_pre_features(df_features, delays):
      delay = delays - 1
      df_features['xdiff_sequence_pre'] = df_features['start_x-0'] - df_features[f'start_x-{delay}']
      df_features['ydiff_sequence_pre'] = df_features['start_y-0'] - df_features[f'start_y-{delay}']
      df_features['time_sequence_pre'] = df_features['time_played-0'] - df_features[f'time_played-{delay}']

  def add_sequence_post_features(df_features, delays):
      delay = delays - 1
      df_features['xdiff_sequence_post'] = df_features['end_x-0'] - df_features[f'start_x-{delay}']
      df_features['ydiff_sequence_post'] = df_features['end_y-0'] - df_features[f'start_y-{delay}']
  \<close>
  With \<open>delays = 0\<close> the name \<^verbatim>\<open>start_x--1\<close> is no column of the table.
\<close>

definition getcol_delay :: "frame \<Rightarrow> string \<Rightarrow> nat \<Rightarrow> error + column" where
  "getcol_delay df c delays = (if delays = 0 then Inl KeyError else getcol df (Delayed c (delays - 1)))"

definition add_sequence_pre_features :: "frame \<Rightarrow> nat \<Rightarrow> error + frame" where
  "add_sequence_pre_features df0 delays =
     and_then (setcol df0 (Plain ''xdiff_sequence_pre'')
                 (arith2 (-) (getcol df0 (Delayed ''start_x'' 0)) (getcol_delay df0 ''start_x'' delays))) (\<lambda>df1.
     and_then (setcol df1 (Plain ''ydiff_sequence_pre'')
                 (arith2 (-) (getcol df1 (Delayed ''start_y'' 0)) (getcol_delay df1 ''start_y'' delays))) (\<lambda>df2.
     setcol df2 (Plain ''time_sequence_pre'')
       (arith2 (-) (getcol df2 (Delayed ''time_played'' 0)) (getcol_delay df2 ''time_played'' delays))))"

definition add_sequence_post_features :: "frame \<Rightarrow> nat \<Rightarrow> error + frame" where
  "add_sequence_post_features df0 delays =
     and_then (setcol df0 (Plain ''xdiff_sequence_post'')
                 (arith2 (-) (getcol df0 (Delayed ''end_x'' 0)) (getcol_delay df0 ''start_x'' delays))) (\<lambda>df1.
     setcol df1 (Plain ''ydiff_sequence_post'')
       (arith2 (-) (getcol df1 (Delayed ''end_y'' 0)) (getcol_delay df1 ''start_y'' delays)))"

section \<open>One-hot encoding of the action type\<close>

text \<open>
  \<^verbatim>\<open>pd.get_dummies(s)\<close> on a column of strings: one column for each value that occurs in
  \<open>s\<close>, in sorted order, holding 1 in the rows with that value and 0 in the others. A
  missing value has no column and is 0 everywhere. The model covers a column of strings
  and missing values; any other cell is a \<^verbatim>\<open>TypeError\<close> here.
\<close>

fun is_str :: "cell \<Rightarrow> bool" where
  "is_str (Str s) = True"
| "is_str NaN = True"
| "is_str _ = False"

fun strings_of :: "column \<Rightarrow> string list" where
  "strings_of [] = []"
| "strings_of (Str s # xs) = s # strings_of xs"
| "strings_of (c # xs) = strings_of xs"

definition get_dummies :: "error + column \<Rightarrow> error + frame" where
  "get_dummies a = and_then a (\<lambda>xs.
     if list_all is_str xs
     then Inr (map (\<lambda>v. (Plain v, map (\<lambda>c. Num (of_bool (c = Str v))) xs))
                   (sort (remdups (strings_of xs))))
     else Inl TypeError)"

text \<open>
  \<^verbatim>\<open>left.merge(right, how='left', left_index=True, right_index=True)\<close> on two tables with
  the same index: the columns of \<open>left\<close>, then those of \<open>right\<close>; a name that both have
  gets the suffix \<^verbatim>\<open>_x\<close> on the left and \<^verbatim>\<open>_y\<close> on the right.
\<close>

text \<open>Only plain names are ever shared: the right-hand table of the one merge of the
  notebook is the table of indicator columns, whose names are plain.\<close>

fun with_suffix :: "string \<Rightarrow> colname \<Rightarrow> colname" where
  "with_suffix sfx (Plain c) = Plain (c @ sfx)"
| "with_suffix sfx (Delayed c s) = Delayed (c @ sfx) s"
| "with_suffix sfx (Ahead c i) = Ahead (c @ sfx) i"

definition merge_on_index :: "frame \<Rightarrow> frame \<Rightarrow> frame" where
  "merge_on_index left right =
     map (\<lambda>(c, xs). (if c \<in> set (map fst right) then with_suffix ''_x'' c else c, xs)) left
   @ map (\<lambda>(c, xs). (if c \<in> set (map fst left) then with_suffix ''_y'' c else c, xs)) right"

text \<open>
  \<^verbatim>\<open>
  def add_action_type_dummies(df_actions):
      return df_actions.merge(pd.get_dummies(df_actions['type_name']), how='left',
                               left_index=True, right_index=True)
  \<close>
\<close>

definition add_action_type_dummies :: "frame \<Rightarrow> error + frame" where
  "add_action_type_dummies df_actions =
     and_then (get_dummies (getcol df_actions (Plain ''type_name'')))
       (\<lambda>dummies. Inr (merge_on_index df_actions dummies))"

section \<open>The features of a match\<close>

text \<open>
  \<^verbatim>\<open>
  delays = 3  # you can play around with this number
  features_to_delay = ['game_id', 'period_id', 'time_seconds', 'team_id',
                       'player_id', 'start_x', 'start_y', 'end_x', 'end_y', 'bodypart_id',
                       'type_id', 'result_id', 'type_name', 'result_name', 'bodypart_name',
                       'time_played']

  def create_features_match(df_actions, features_to_delay, delays):
      df_action_features = add_action_type_dummies(df_actions)
      add_time_played(df_action_features)
      df_gamestate_features = create_delayed_features(df_action_features, features_to_delay, delays)
      add_same_team(df_gamestate_features, delays)
      invert_coordinates(df_gamestate_features, delays)
      add_location_features(df_gamestate_features, delays)
      add_sequence_pre_features(df_gamestate_features, delays)
      add_sequence_post_features(df_gamestate_features, delays)
      return df_gamestate_features
  \<close>
\<close>

definition features_to_delay :: "string list" where
  "features_to_delay = [''game_id'', ''period_id'', ''time_seconds'', ''team_id'',
     ''player_id'', ''start_x'', ''start_y'', ''end_x'', ''end_y'', ''bodypart_id'',
     ''type_id'', ''result_id'', ''type_name'', ''result_name'', ''bodypart_name'',
     ''time_played'']"

text \<open>
  \<open>dtypes\<close> gives the dtype of each column of \<^verbatim>\<open>df_gamestate_features\<close> when
  \<^verbatim>\<open>add_location_features\<close> reads it, and \<open>io\<close> says what the library does with an
  int64 buffer there.
\<close>

definition create_features_match ::
  "(colname \<Rightarrow> dtype) \<Rightarrow> int_out \<Rightarrow> frame \<Rightarrow> string list \<Rightarrow> nat \<Rightarrow> error + frame" where
  "create_features_match dtypes io df_actions features delays =
     and_then (add_action_type_dummies df_actions) (\<lambda>df_action_features.
     and_then (add_time_played df_action_features) (\<lambda>df_action_features.
     and_then (create_delayed_features df_action_features features delays) (\<lambda>df_gamestate_features.
     and_then (add_same_team df_gamestate_features delays) (\<lambda>df_gamestate_features.
     and_then (invert_coordinates df_gamestate_features delays) (\<lambda>df_gamestate_features.
     and_then (add_location_features dtypes io df_gamestate_features delays) (\<lambda>df_gamestate_features.
     and_then (add_sequence_pre_features df_gamestate_features delays) (\<lambda>df_gamestate_features.
     add_sequence_post_features df_gamestate_features delays)))))))"

text \<open>The cell of a table at a column and a row, when the table was computed and has it.\<close>

definition cell_at :: "error + frame \<Rightarrow> colname \<Rightarrow> nat \<Rightarrow> cell option" where
  "cell_at r c i =
     (case r of Inl e \<Rightarrow> None
      | Inr df \<Rightarrow> (case map_of df c of None \<Rightarrow> None
                   | Some xs \<Rightarrow> if i < length xs then Some (xs ! i) else None))"

section \<open>Labels\<close>

text \<open>
  A pandas \<^verbatim>\<open>Series\<close> carries a name next to its values: the column name when it is read
  from a table, and after an operation on two series their common name, or none when the
  names differ. The label functions end with \<^verbatim>\<open>pd.DataFrame(series, columns=[...])\<close>,
  which looks at the name, so the labels are modelled with named series.
\<close>

type_synonym series = "colname option \<times> column"

definition getser :: "frame \<Rightarrow> colname \<Rightarrow> error + series" where
  "getser df c = and_then (getcol df c) (\<lambda>xs. Inr (Some c, xs))"

definition match_name :: "colname option \<Rightarrow> colname option \<Rightarrow> colname option" where
  "match_name a b = (if a = b then a else None)"

text \<open>\<^verbatim>\<open>s.str.contains(pat)\<close> for a pattern without regex operators: whether \<open>pat\<close> occurs in
  the string; a cell that is no string gives \<^verbatim>\<open>NaN\<close>.\<close>

fun contains :: "string \<Rightarrow> string \<Rightarrow> bool" where
  "contains pat [] = (pat = [])"
| "contains pat (c # s) = (take (length pat) (c # s) = pat \<or> contains pat s)"

fun cell_contains :: "string \<Rightarrow> cell \<Rightarrow> cell" where
  "cell_contains pat (Str s) = Flag (contains pat s)"
| "cell_contains pat c = NaN"

definition str_contains :: "error + series \<Rightarrow> string \<Rightarrow> error + series" where
  "str_contains a pat = and_then a (\<lambda>(nm, xs). Inr (nm, map (cell_contains pat) xs))"

definition ser_eq_scalar :: "error + series \<Rightarrow> real \<Rightarrow> error + series" where
  "ser_eq_scalar a r = and_then a (\<lambda>(nm, xs). Inr (nm, map (\<lambda>c. Flag (cell_eq c (Num r))) xs))"

text \<open>\<^verbatim>\<open>a & b\<close> and \<^verbatim>\<open>a | b\<close> on boolean series. The model covers columns of booleans; a
  column with another cell is a \<^verbatim>\<open>TypeError\<close> here.\<close>

fun cell_logic :: "(bool \<Rightarrow> bool \<Rightarrow> bool) \<Rightarrow> cell \<Rightarrow> cell \<Rightarrow> cell" where
  "cell_logic f (Flag a) (Flag b) = Flag (f a b)"
| "cell_logic f _ _ = NaN"

definition logical2 :: "(bool \<Rightarrow> bool \<Rightarrow> bool) \<Rightarrow> error + series \<Rightarrow> error + series \<Rightarrow> error + series" where
  "logical2 f a b = and_then a (\<lambda>(na, xs). and_then b (\<lambda>(nb, ys).
     if flags xs \<and> flags ys then Inr (match_name na nb, map2 (cell_logic f) xs ys)
     else Inl TypeError))"

text \<open>\<^verbatim>\<open>a == b\<close> and \<^verbatim>\<open>a != b\<close> on two series.\<close>

definition ser_eq :: "error + series \<Rightarrow> error + series \<Rightarrow> error + series" where
  "ser_eq a b = and_then a (\<lambda>(na, xs). and_then b (\<lambda>(nb, ys).
     Inr (match_name na nb, map2 (\<lambda>x y. Flag (cell_eq x y)) xs ys)))"

definition ser_ne :: "error + series \<Rightarrow> error + series \<Rightarrow> error + series" where
  "ser_ne a b = and_then a (\<lambda>(na, xs). and_then b (\<lambda>(nb, ys).
     Inr (match_name na nb, map2 (\<lambda>x y. Flag (\<not> cell_eq x y)) xs ys)))"

text \<open>
  \<^verbatim>\<open>pd.DataFrame(s, columns=[c])\<close>: a series without a name gives the table with the one
  column \<open>c\<close> holding its values. A series with a name is read as the dictionary
  \<^verbatim>\<open>{name: s}\<close>, and of a dictionary the constructor keeps the listed columns: when the
  name is not \<open>c\<close>, the column \<open>c\<close> has no data and the table has no rows.
\<close>

definition DataFrame :: "error + series \<Rightarrow> string \<Rightarrow> error + frame" where
  "DataFrame a c = and_then a (\<lambda>(nm, xs).
     case nm of None \<Rightarrow> Inr [(Plain c, xs)]
     | Some n \<Rightarrow> if n = Plain c then Inr [(Plain c, xs)] else Inr [(Plain c, [])])"

text \<open>
  The first lines of both label functions:
  \<^verbatim>\<open>
      goals = df_actions['type_name'].str.contains('shot') & (
          df_actions['result_id'] == 1
      )
      owngoals = df_actions['type_name'].str.contains('shot') & (
          df_actions['result_id'] == 2
      )
      y = pd.concat([goals, owngoals, df_actions['team_id']], axis=1)
      y.columns = ['goal', 'owngoal', 'team_id']
  \<close>
\<close>

definition goals :: "frame \<Rightarrow> error + series" where
  "goals df_actions =
     logical2 (\<and>) (str_contains (getser df_actions (Plain ''type_name'')) ''shot'')
                  (ser_eq_scalar (getser df_actions (Plain ''result_id'')) 1)"

definition owngoals :: "frame \<Rightarrow> error + series" where
  "owngoals df_actions =
     logical2 (\<and>) (str_contains (getser df_actions (Plain ''type_name'')) ''shot'')
                  (ser_eq_scalar (getser df_actions (Plain ''result_id'')) 2)"

definition merged :: "frame \<Rightarrow> error + frame" where
  "merged df_actions =
     and_then (goals df_actions) (\<lambda>(gn, g).
     and_then (owngoals df_actions) (\<lambda>(on, og).
     and_then (getcol df_actions (Plain ''team_id'')) (\<lambda>t.
       Inr [(Plain ''goal'', g), (Plain ''owngoal'', og), (Plain ''team_id'', t)])))"

text \<open>
  \<^verbatim>\<open>
      # adding future results
      for i in range(1, nr_actions):
          for col in ['team_id', 'goal', 'owngoal']:
              shifted = y[col].shift(-i)
              shifted[-i:] = y[col][len(y) - 1]
              y[f'{col}+{i}'] = shifted
  \<close>
  \<^verbatim>\<open>y[col][len(y) - 1]\<close> is the value of the last row; on a table without rows the label
  \<open>-1\<close> is no row and the lookup raises \<^verbatim>\<open>KeyError\<close>. The assignment to
  \<^verbatim>\<open>shifted[-i:]\<close> overwrites the last \<open>i\<close> rows (all rows, when there are fewer).
\<close>

definition fill_tail :: "nat \<Rightarrow> cell \<Rightarrow> column \<Rightarrow> column" where
  "fill_tail i v xs = take (length xs - i) xs @ replicate (min i (length xs)) v"

definition future_col :: "nat \<Rightarrow> string \<Rightarrow> frame \<Rightarrow> error + frame" where
  "future_col i col y =
     and_then (getcol y (Plain col)) (\<lambda>xs.
       if xs = [] then Inl KeyError
       else Inr (AList.update (Ahead col i)
                   (fill_tail i (xs ! (length xs - 1)) (shift (- int i) xs)) y))"

definition future_step :: "nat \<Rightarrow> frame \<Rightarrow> error + frame" where
  "future_step i y = for_each (future_col i) [''team_id'', ''goal'', ''owngoal''] y"

definition add_future_results :: "frame \<Rightarrow> nat \<Rightarrow> error + frame" where
  "add_future_results y nr_actions = for_each future_step [1..<nr_actions] y"

text \<open>
  \<^verbatim>\<open>
      scores = y['goal']
      for i in range(1, nr_actions):
          goal_scored = y[f'goal+{i}'] & (y[f'team_id+{i}'] == y['team_id'])
          own_goal_opponent = y[f'owngoal+{i}'] & (y[f'team_id+{i}'] != y['team_id'])
          scores = scores | goal_scored | own_goal_opponent

      return pd.DataFrame(scores, columns=['scores'])
  \<close>
\<close>

definition scores_step :: "frame \<Rightarrow> nat \<Rightarrow> error + series \<Rightarrow> error + series" where
  "scores_step y i scores =
     logical2 (\<or>)
       (logical2 (\<or>) scores
          (logical2 (\<and>) (getser y (Ahead ''goal'' i))
             (ser_eq (getser y (Ahead ''team_id'' i)) (getser y (Plain ''team_id'')))))
       (logical2 (\<and>) (getser y (Ahead ''owngoal'' i))
          (ser_ne (getser y (Ahead ''team_id'' i)) (getser y (Plain ''team_id''))))"

definition label_scores :: "frame \<Rightarrow> nat \<Rightarrow> error + frame" where
  "label_scores df_actions nr_actions =
     and_then (merged df_actions) (\<lambda>y.
     and_then (add_future_results y nr_actions) (\<lambda>y.
       DataFrame (fold (scores_step y) [1..<nr_actions] (getser y (Plain ''goal''))) ''scores''))"

text \<open>
  \<^verbatim>\<open>
      concedes = y['owngoal']
      for i in range(1, nr_actions):
          goal_opponent = y[f'goal+{i}'] & (y[f'team_id+{i}'] != y['team_id'])
          own_goal_team = y[f'owngoal+{i}'] & (y[f'team_id+{i}'] == y['team_id'])
          concedes = concedes | goal_opponent | own_goal_team

      return pd.DataFrame(concedes, columns=['concedes'])
  \<close>
\<close>

definition concedes_step :: "frame \<Rightarrow> nat \<Rightarrow> error + series \<Rightarrow> error + series" where
  "concedes_step y i concedes =
     logical2 (\<or>)
       (logical2 (\<or>) concedes
          (logical2 (\<and>) (getser y (Ahead ''goal'' i))
             (ser_ne (getser y (Ahead ''team_id'' i)) (getser y (Plain ''team_id'')))))
       (logical2 (\<and>) (getser y (Ahead ''owngoal'' i))
          (ser_eq (getser y (Ahead ''team_id'' i)) (getser y (Plain ''team_id''))))"

definition label_concedes :: "frame \<Rightarrow> nat \<Rightarrow> error + frame" where
  "label_concedes df_actions nr_actions =
     and_then (merged df_actions) (\<lambda>y.
     and_then (add_future_results y nr_actions) (\<lambda>y.
       DataFrame (fold (concedes_step y) [1..<nr_actions] (getser y (Plain ''owngoal''))) ''concedes''))"

text \<open>A match of three actions: a pass by team 7, a pass by team 8 and a shot by team 7
  that ends in an own goal.\<close>

definition example_match :: frame where
  "example_match =
     [(Plain ''team_id'', [Num 7, Num 8, Num 7]),
      (Plain ''type_name'', [Str ''pass'', Str ''pass'', Str ''shot'']),
      (Plain ''result_id'', [Num 1, Num 1, Num 2])]"

section \<open>Closed forms used in the proofs\<close>

text \<open>The column \<^verbatim>\<open>a == b\<close> and the column left by the masked assignment of
  \<^verbatim>\<open>extent - xs\<close> in the rows where \<open>team\<close> is false.\<close>

definition same_col :: "column \<Rightarrow> column \<Rightarrow> column" where
  "same_col xs ys = map2 (\<lambda>x y. Flag (cell_eq x y)) xs ys"

definition inverted :: "real \<Rightarrow> column \<Rightarrow> column \<Rightarrow> column" where
  "inverted e team xs = masked (map cell_not team) (map (cell_map (\<lambda>x. e - x)) xs) xs"

text \<open>The offset that \<^verbatim>\<open>add_time_played\<close> adds for a period, and the column it computes.\<close>

definition period_offset :: "cell \<Rightarrow> real" where
  "period_offset p =
     (case cell_times (45 * 60) (cell_ge 2 p) of Num a \<Rightarrow> a | _ \<Rightarrow> 0)
   + (case cell_times (15 * 60) (cell_ge 3 p) of Num a \<Rightarrow> a | _ \<Rightarrow> 0)
   + (case cell_times (15 * 60) (Flag (cell_eq p (Num 4))) of Num a \<Rightarrow> a | _ \<Rightarrow> 0)"

definition time_played_column :: "column \<Rightarrow> column \<Rightarrow> column" where
  "time_played_column ts ps =
     map2 (cell_arith (+))
       (map2 (cell_arith (+))
         (map2 (cell_arith (+)) ts (map (cell_times (45 * 60)) (map (cell_ge 2) ps)))
         (map (cell_times (15 * 60)) (map (cell_ge 3) ps)))
       (map (cell_times (15 * 60)) (map (\<lambda>c. Flag (cell_eq c (Num 4))) ps))"

text \<open>The four coordinate columns of a slot, and the pitch dimension each is mirrored in.\<close>

definition coords :: "string list" where
  "coords = [''start_x'', ''start_y'', ''end_x'', ''end_y'']"

definition extent :: "string \<Rightarrow> real" where
  "extent c = (if c = ''start_x'' \<or> c = ''end_x'' then PITCH_LENGTH else PITCH_WIDTH)"

text \<open>
  The two calls of \<^verbatim>\<open>create_features_match\<close> that normalise the coordinates of a window:
  \<^verbatim>\<open>add_same_team(df_gamestate_features, delays)\<close>, then
  \<^verbatim>\<open>invert_coordinates(df_gamestate_features, delays)\<close>.
\<close>

definition normalize_window :: "frame \<Rightarrow> nat \<Rightarrow> error + frame" where
  "normalize_window df_features delays =
     and_then (add_same_team df_features delays) (\<lambda>df_features.
       invert_coordinates df_features delays)"

text \<open>
  A table of actions with \<open>n\<close> rows that has the columns \<open>cs\<close>, and a table of windows
  with \<open>n\<close> rows and \<open>K\<close> slots that has the team and the four numeric coordinates of
  every slot.
\<close>

definition has_columns :: "frame \<Rightarrow> string list \<Rightarrow> nat \<Rightarrow> bool" where
  "has_columns df cs n =
     list_all (\<lambda>c. case map_of df (Plain c) of None \<Rightarrow> False | Some xs \<Rightarrow> length xs = n) cs"

definition window_table :: "frame \<Rightarrow> nat \<Rightarrow> nat \<Rightarrow> bool" where
  "window_table df K n =
     list_all (\<lambda>j.
       (case map_of df (Delayed ''team_id'' j) of None \<Rightarrow> False | Some xs \<Rightarrow> length xs = n)
       \<and> list_all (\<lambda>c. case map_of df (Delayed c j) of None \<Rightarrow> False
                         | Some xs \<Rightarrow> length xs = n \<and> numeric xs) coords) [0..<K]"

text \<open>The x coordinate columns of all \<open>K\<close> slots of a table of windows are float64.\<close>

definition float64_x :: "(colname \<Rightarrow> dtype) \<Rightarrow> nat \<Rightarrow> bool" where
  "float64_x dtypes K =
     list_all (\<lambda>j. dtypes (Delayed ''start_x'' j) = Float64
                  \<and> dtypes (Delayed ''end_x'' j) = Float64) [0..<K]"

text \<open>
  For the labels: the column that the shift by \<open>-i\<close> and the fill of its last rows leave
  (\<open>ahead\<close>), which holds in row \<open>j\<close> the value of row \<open>min (j + i) (n - 1)\<close> (\<open>near\<close>);
  the three columns the loop copies; one pass of either label loop, with the two team
  comparisons as parameters; whether action \<open>k\<close> decides the label of action \<open>j\<close>
  (\<open>hit\<close>); and the label values after the passes \<open>1..<h\<close>.
\<close>

definition ahead :: "nat \<Rightarrow> column \<Rightarrow> column" where
  "ahead i xs = fill_tail i (xs ! (length xs - 1)) (shift (- int i) xs)"

definition near :: "nat \<Rightarrow> 'a list \<Rightarrow> 'a list" where
  "near i xs = map (\<lambda>j. xs ! min (j + i) (length xs - 1)) [0..<length xs]"

definition label_cols :: "string list" where
  "label_cols = [''team_id'', ''goal'', ''owngoal'']"

definition ser_cmp :: "(cell \<Rightarrow> cell \<Rightarrow> bool) \<Rightarrow> error + series \<Rightarrow> error + series \<Rightarrow> error + series" where
  "ser_cmp f a b = and_then a (\<lambda>(na, xs). and_then b (\<lambda>(nb, ys).
     Inr (match_name na nb, map2 (\<lambda>x y. Flag (f x y)) xs ys)))"

definition either_step ::
  "(cell \<Rightarrow> cell \<Rightarrow> bool) \<Rightarrow> (cell \<Rightarrow> cell \<Rightarrow> bool) \<Rightarrow> frame \<Rightarrow> nat \<Rightarrow> error + series \<Rightarrow> error + series" where
  "either_step f1 f2 y i acc =
     logical2 (\<or>)
       (logical2 (\<or>) acc
          (logical2 (\<and>) (getser y (Ahead ''goal'' i))
             (ser_cmp f1 (getser y (Ahead ''team_id'' i)) (getser y (Plain ''team_id'')))))
       (logical2 (\<and>) (getser y (Ahead ''owngoal'' i))
          (ser_cmp f2 (getser y (Ahead ''team_id'' i)) (getser y (Plain ''team_id''))))"

definition hit ::
  "(cell \<Rightarrow> cell \<Rightarrow> bool) \<Rightarrow> (cell \<Rightarrow> cell \<Rightarrow> bool) \<Rightarrow> bool list \<Rightarrow> bool list \<Rightarrow> column \<Rightarrow> nat \<Rightarrow> nat \<Rightarrow> bool" where
  "hit f1 f2 G W T j k = ((G ! k \<and> f1 (T ! k) (T ! j)) \<or> (W ! k \<and> f2 (T ! k) (T ! j)))"

definition in_horizon ::
  "(cell \<Rightarrow> cell \<Rightarrow> bool) \<Rightarrow> (cell \<Rightarrow> cell \<Rightarrow> bool) \<Rightarrow> bool list \<Rightarrow> bool list \<Rightarrow> column \<Rightarrow> bool list \<Rightarrow> nat \<Rightarrow> bool list" where
  "in_horizon f1 f2 G W T first h =
     map (\<lambda>j. first ! j \<or> (\<exists>i\<in>{1..<h}. hit f1 f2 G W T j (min (j + i) (length T - 1))))
       [0..<length T]"

text \<open>
  A table of actions for the label functions: a column of type names that are strings, a
  column of result identifiers and a column of team identifiers that are numbers, all of
  one length. \<open>shot_with res t r\<close> says that \<open>t\<close> is a shot type and \<open>r\<close> is the result
  \<open>res\<close>: the code reads result 1 as a goal and result 2 as an own goal.
\<close>

fun is_string :: "cell \<Rightarrow> bool" where
  "is_string (Str s) = True"
| "is_string _ = False"

fun is_number :: "cell \<Rightarrow> bool" where
  "is_number (Num x) = True"
| "is_number _ = False"

definition shot_with :: "real \<Rightarrow> cell \<Rightarrow> cell \<Rightarrow> bool" where
  "shot_with res t r = (case t of Str s \<Rightarrow> contains ''shot'' s \<and> cell_eq r (Num res) | _ \<Rightarrow> False)"

definition label_table :: "frame \<Rightarrow> column \<Rightarrow> column \<Rightarrow> column \<Rightarrow> bool" where
  "label_table df tn rs ts \<longleftrightarrow>
     map_of df (Plain ''type_name'') = Some tn \<and> map_of df (Plain ''result_id'') = Some rs
     \<and> map_of df (Plain ''team_id'') = Some ts
     \<and> length tn = length ts \<and> length rs = length ts
     \<and> list_all is_string tn \<and> list_all is_number ts"

text \<open>A match of one action, a shot by team 7 that scores.\<close>

definition example_goal :: frame where
  "example_goal =
     [(Plain ''team_id'', [Num 7]), (Plain ''type_name'', [Str ''shot'']),
      (Plain ''result_id'', [Num 1])]"

text \<open>The dtypes of a table whose columns are all float64, and of one whose \<^verbatim>\<open>end_x-0\<close>
  column is int64.\<close>

definition all_float64 :: "colname \<Rightarrow> dtype" where
  "all_float64 c = Float64"

definition end_x_int64 :: "colname \<Rightarrow> dtype" where
  "end_x_int64 c = (if c = Delayed ''end_x'' 0 then Int64 else Float64)"

text \<open>A table of windows with two rows and two slots: a first action by team 7, then
  one by team 8; slot 1 of the first row is missing.\<close>

definition example_window :: frame where
  "example_window =
     [(Delayed ''team_id'' 0, [Num 7, Num 8]), (Delayed ''team_id'' 1, [NaN, Num 7]),
      (Delayed ''start_x'' 0, [Num 50, Num 60]), (Delayed ''start_x'' 1, [NaN, Num 50]),
      (Delayed ''start_y'' 0, [Num 30, Num 40]), (Delayed ''start_y'' 1, [NaN, Num 30]),
      (Delayed ''end_x'' 0, [Num 60, Num 70]), (Delayed ''end_x'' 1, [NaN, Num 60]),
      (Delayed ''end_y'' 0, [Num 40, Num 20]), (Delayed ''end_y'' 1, [NaN, Num 40])]"

text \<open>The angle feature of one cell pair, the column \<^verbatim>\<open>add_location_features\<close> computes
  from it, and the names of the columns it writes for a step.\<close>

definition angle_to_goal :: "cell \<Rightarrow> cell \<Rightarrow> cell" where
  "angle_to_goal x y =
     cell_divide_where (cell_map (\<lambda>x. GOAL_X - x) x) (cell_map abs (cell_map (\<lambda>y. GOAL_Y - y) y))"

definition location_names :: "string list" where
  "location_names = [''start_x_norm'', ''start_y_norm'', ''start_distance_to_goal'',
     ''start_angle_to_goal'', ''end_x_norm'', ''end_y_norm'', ''end_distance_to_goal'',
     ''end_angle_to_goal'', ''diff_x'', ''diff_y'', ''distance_covered'']"

definition angle_column :: "column \<Rightarrow> column \<Rightarrow> column" where
  "angle_column xs ys =
     map2 cell_divide_where (map (cell_map (\<lambda>x. GOAL_X - x)) xs)
       (map (cell_map abs) (map (cell_map (\<lambda>y. GOAL_Y - y)) ys))"

definition side_names :: "string \<Rightarrow> string list" where
  "side_names side = [side @ ''_x_norm'', side @ ''_y_norm'', side @ ''_distance_to_goal'',
     side @ ''_angle_to_goal'', ''diff_x'', ''diff_y'', ''distance_covered'']"

text \<open>The example table of windows after \<^verbatim>\<open>add_same_team\<close> and \<^verbatim>\<open>invert_coordinates\<close>.\<close>

definition example_normalized :: frame where
  "example_normalized =
     [(Delayed ''team_id'' 0, [Num 7, Num 8]), (Delayed ''team_id'' 1, [NaN, Num 7]),
      (Delayed ''start_x'' 0, [Num 50, Num 60]), (Delayed ''start_x'' 1, [NaN, Num 55]),
      (Delayed ''start_y'' 0, [Num 30, Num 40]), (Delayed ''start_y'' 1, [NaN, Num 38]),
      (Delayed ''end_x'' 0, [Num 60, Num 70]), (Delayed ''end_x'' 1, [NaN, Num 45]),
      (Delayed ''end_y'' 0, [Num 40, Num 20]), (Delayed ''end_y'' 1, [NaN, Num 28]),
      (Delayed ''team'' 1, [Flag False, Flag False])]"

text \<open>A match of one action, a pass, and the column names of a computed table.\<close>

definition example_actions :: frame where
  "example_actions =
     [(Plain ''game_id'', [Num 1]),
      (Plain ''period_id'', [Num 1]),
      (Plain ''time_seconds'', [Num 3]),
      (Plain ''team_id'', [Num 7]),
      (Plain ''player_id'', [Num 70]),
      (Plain ''start_x'', [Num 50]),
      (Plain ''start_y'', [Num 30]),
      (Plain ''end_x'', [Num 60]),
      (Plain ''end_y'', [Num 40]),
      (Plain ''bodypart_id'', [Num 0]),
      (Plain ''type_id'', [Num 0]),
      (Plain ''result_id'', [Num 1]),
      (Plain ''type_name'', [Str ''pass'']),
      (Plain ''result_name'', [Str ''success'']),
      (Plain ''bodypart_name'', [Str ''foot''])]"

definition column_names :: "error + frame \<Rightarrow> error + colname list" where
  "column_names r = and_then r (\<lambda>df. Inr (map fst df))"

section \<open>Basic facts about the operations\<close>

lemma and_then_Inr [simp]: "and_then (Inr x) f = f x"
  by (simp add: and_then_def)

lemma and_then_Inl [simp]: "and_then (Inl e) f = Inl e"
  by (simp add: and_then_def)

lemma getcol_Some [simp]: "map_of df c = Some xs \<Longrightarrow> getcol df c = Inr xs"
  by (simp add: getcol_def)

lemma getcol_None [simp]: "map_of df c = None \<Longrightarrow> getcol df c = Inl KeyError"
  by (simp add: getcol_def)

lemma setcol_Inr [simp]: "setcol df c (Inr xs) = Inr (AList.update c xs df)"
  by (simp add: setcol_def)

lemma map_of_setcol: "map_of (AList.update c xs df) k = (if k = c then Some xs else map_of df k)"
  by (simp add: update_conv')

lemma numeric_iff: "numeric xs \<longleftrightarrow> (\<forall>c\<in>set xs. is_numeric c)"
  by (simp add: numeric_def list_all_iff)

lemma flags_iff: "flags xs \<longleftrightarrow> (\<forall>c\<in>set xs. is_flag c)"
  by (simp add: flags_def list_all_iff)

lemma numeric_nth: "numeric xs \<Longrightarrow> i < length xs \<Longrightarrow> is_numeric (xs ! i)"
  by (simp add: numeric_iff)

lemma is_flag_cell_ge [simp]: "is_flag (cell_ge q c)"
  by (cases c) simp_all

lemma is_numeric_cell_times [simp]: "is_flag c \<or> is_numeric c \<Longrightarrow> is_numeric (cell_times r c)"
  by (cases c) simp_all

lemma is_numeric_cell_arith [simp]: "is_numeric (cell_arith f x y)"
  by (cases x; cases y) simp_all

lemma numeric_map2_arith [simp]: "numeric (map2 (cell_arith f) xs ys)"
  by (auto simp: numeric_iff dest!: set_zip_leftD in_set_zipE)

lemma flags_map_ge [simp]: "flags (map (cell_ge q) xs)"
  by (simp add: flags_iff)

lemma flags_map_Flag [simp]: "flags (map (\<lambda>c. Flag (f c)) xs)"
  by (simp add: flags_iff)

lemma numeric_map_times [simp]: "numeric xs \<or> flags xs \<Longrightarrow> numeric (map (cell_times r) xs)"
  by (auto simp: flags_iff numeric_iff)

lemma arith2_Inr [simp]:
  "numeric xs \<Longrightarrow> numeric ys \<Longrightarrow> arith2 f (Inr xs) (Inr ys) = Inr (map2 (cell_arith f) xs ys)"
  by (simp add: arith2_def)

lemma ge_scalar_Inr [simp]: "numeric xs \<Longrightarrow> ge_scalar (Inr xs) r = Inr (map (cell_ge r) xs)"
  by (simp add: ge_scalar_def)

lemma eq_scalar_Inr [simp]: "eq_scalar (Inr xs) r = Inr (map (\<lambda>c. Flag (cell_eq c (Num r))) xs)"
  by (simp add: eq_scalar_def)

lemma times_scalar_Inr [simp]:
  "numeric xs \<or> flags xs \<Longrightarrow> times_scalar (Inr xs) r = Inr (map (cell_times r) xs)"
  by (simp add: times_scalar_def)

lemma add_time_played_column:
  assumes ts: "map_of df (Plain ''time_seconds'') = Some ts"
    and ps: "map_of df (Plain ''period_id'') = Some ps"
    and num: "numeric ts" "numeric ps"
  shows "add_time_played df
           = Inr (AList.update (Plain ''time_played'') (time_played_column ts ps) df)"
proof -
  have a: "times_scalar (ge_scalar (Inr ps) 2) (45 * 60)
             = Inr (map (cell_times (45 * 60)) (map (cell_ge 2) ps))"
    and b: "times_scalar (ge_scalar (Inr ps) 3) (15 * 60)
             = Inr (map (cell_times (15 * 60)) (map (cell_ge 3) ps))"
    and c: "times_scalar (eq_scalar (Inr ps) 4) (15 * 60)
             = Inr (map (cell_times (15 * 60)) (map (\<lambda>c. Flag (cell_eq c (Num 4))) ps))"
    using num(2) by (simp_all del: map_map)
  show ?thesis
    unfolding add_time_played_def getcol_Some [OF ts] getcol_Some [OF ps] a b c
      time_played_column_def
    using num by (simp del: map_map)
qed

lemma add_time_played_row:
  assumes ts: "map_of df (Plain ''time_seconds'') = Some ts"
    and ps: "map_of df (Plain ''period_id'') = Some ps"
    and num: "numeric ts" "numeric ps"
    and len: "length ts = length ps" and i: "i < length ps"
    and t: "ts ! i = Num t"
  shows "\<exists>df' tp. add_time_played df = Inr df' \<and> map_of df' (Plain ''time_played'') = Some tp
           \<and> length tp = length ps \<and> tp ! i = Num (t + period_offset (ps ! i))"
proof -
  have "is_numeric (ps ! i)" using num(2) i by (rule numeric_nth)
  then have "cell_arith (+) (cell_arith (+) (cell_arith (+) (Num t)
               (cell_times (45 * 60) (cell_ge 2 (ps ! i))))
               (cell_times (15 * 60) (cell_ge 3 (ps ! i))))
               (cell_times (15 * 60) (Flag (cell_eq (ps ! i) (Num 4))))
             = Num (t + period_offset (ps ! i))"
    by (cases "ps ! i") (simp_all add: period_offset_def)
  then show ?thesis
    using add_time_played_column [OF ts ps num] len i t
    by (simp add: map_of_setcol time_played_column_def)
qed

lemma cell_at_Inr:
  "map_of df c = Some xs \<Longrightarrow> i < length xs \<Longrightarrow> cell_at (Inr df) c i = Some (xs ! i)"
  by (simp add: cell_at_def)

lemma cell_at_time_played:
  assumes "map_of df (Plain ''time_seconds'') = Some ts"
    and "map_of df (Plain ''period_id'') = Some ps"
    and "numeric ts" and "numeric ps"
    and "length ts = length ps" and "i < length ps"
    and "ts ! i = Num t"
  shows "cell_at (add_time_played df) (Plain ''time_played'') i
           = Some (Num (t + period_offset (ps ! i)))"
proof -
  from add_time_played_row [OF assms] obtain df' tp where
    "add_time_played df = Inr df'" "map_of df' (Plain ''time_played'') = Some tp"
    "length tp = length ps" "tp ! i = Num (t + period_offset (ps ! i))"
    by blast
  with assms(6) show ?thesis by (simp add: cell_at_def)
qed

section \<open>Windows and coordinate normalisation: what the loops compute\<close>

lemma length_shift [simp]: "length (shift p xs) = length xs"
  by (auto simp: shift_def)

lemma shift_nth:
  "i < length xs \<Longrightarrow> shift (int s) xs ! i = (if s \<le> i then xs ! (i - s) else NaN)"
  by (auto simp: shift_def nth_append)

lemma shift_0 [simp]: "shift 0 xs = xs"
  by (simp add: shift_def)

lemma select_ok:
  "(\<And>c. c \<in> set feats \<Longrightarrow> map_of df (Plain c) \<noteq> None) \<Longrightarrow>
   select df feats = Inr (map (\<lambda>c. (c, the (map_of df (Plain c)))) feats)"
  by (induction feats) (auto simp: getcol_def split: option.splits)

lemma map_of_delayed:
  "map_of (delayed sel step) (Delayed c s)
     = (if s = step then map_option (shift (int s)) (map_of sel c) else None)"
  by (induction sel) (auto simp: delayed_def)

lemma map_of_delayed_other [simp]:
  "map_of (delayed sel step) (Plain c) = None" "map_of (delayed sel step) (Ahead c i) = None"
  by (induction sel) (auto simp: delayed_def)

lemma map_of_concat_delayed:
  "map_of (concat (map (delayed sel) [lo..<hi])) (Delayed c s)
     = (if lo \<le> s \<and> s < hi then map_option (shift (int s)) (map_of sel c) else None)"
proof (induction hi)
  case 0
  show ?case by simp
next
  case (Suc hi)
  show ?case
  proof (cases "lo \<le> hi")
    case True
    then show ?thesis using Suc
      by (auto simp: map_of_delayed map_add_def split: option.splits)
  next
    case False
    then show ?thesis by auto
  qed
qed

lemma map_of_selected:
  "c \<in> set feats \<Longrightarrow> map_of (map (\<lambda>c. (c, f c)) feats) c = Some (f c)"
  by (induction feats) auto

lemma window_column:
  assumes cols: "\<And>c. c \<in> set feats \<Longrightarrow> map_of df (Plain c) \<noteq> None"
    and c: "c \<in> set feats" and s: "s < K"
  shows "\<exists>out. create_delayed_features df feats K = Inr out
           \<and> map_of out (Delayed c s) = Some (shift (int s) (the (map_of df (Plain c))))"
  using s c by (simp add: create_delayed_features_def select_ok [OF cols]
      map_of_concat_delayed map_of_selected)

lemma for_each_append:
  "for_each body (xs @ ys) df = and_then (for_each body xs df) (for_each body ys)"
  by (induction xs arbitrary: df) (auto simp: and_then_def split: sum.splits)

lemma for_each_upt:
  assumes init: "P lo df"
    and step: "\<And>s d. lo \<le> s \<Longrightarrow> s < hi \<Longrightarrow> P s d \<Longrightarrow> \<exists>d'. body s d = Inr d' \<and> P (Suc s) d'"
    and le: "lo \<le> hi"
  shows "\<exists>d'. for_each body [lo..<hi] df = Inr d' \<and> P hi d'"
  using le step
proof (induction hi)
  case 0
  with init show ?case by simp
next
  case (Suc hi)
  show ?case
  proof (cases "lo \<le> hi")
    case True
    from Suc.IH [OF True] Suc.prems(2) obtain d where
      d: "for_each body [lo..<hi] df = Inr d" "P hi d"
      by (metis less_Suc_eq)
    from Suc.prems(2) [OF True _ d(2)] obtain d' where "body hi d = Inr d'" "P (Suc hi) d'"
      by auto
    with d True show ?thesis by (simp add: for_each_append)
  next
    case False
    with Suc.prems(1) have "lo = Suc hi" by simp
    with init show ?thesis by simp
  qed
qed

lemma same_team_step_result:
  assumes "map_of d (Delayed ''team_id'' 0) = Some t0"
    and "map_of d (Delayed ''team_id'' s) = Some ts"
  shows "same_team_step s d = Inr (AList.update (Delayed ''team'' s) (same_col t0 ts) d)"
  using assms by (simp add: same_team_step_def eq_cols_def same_col_def)

lemma add_same_team_result:
  assumes t0: "map_of df (Delayed ''team_id'' 0) = Some t0"
    and ts: "\<And>j. 1 \<le> j \<Longrightarrow> j < K \<Longrightarrow> map_of df (Delayed ''team_id'' j) \<noteq> None"
  shows "\<exists>d. add_same_team df K = Inr d
           \<and> (\<forall>j. 1 \<le> j \<and> j < K \<longrightarrow> map_of d (Delayed ''team'' j)
                  = Some (same_col t0 (the (map_of df (Delayed ''team_id'' j)))))
           \<and> (\<forall>k. (\<forall>j. k \<noteq> Delayed ''team'' j) \<longrightarrow> map_of d k = map_of df k)"
proof (cases "1 \<le> K")
  case True
  let ?P = "\<lambda>s d. (\<forall>j. 1 \<le> j \<and> j < s \<longrightarrow> map_of d (Delayed ''team'' j)
                  = Some (same_col t0 (the (map_of df (Delayed ''team_id'' j)))))
           \<and> (\<forall>k. (\<forall>j. k \<noteq> Delayed ''team'' j) \<longrightarrow> map_of d k = map_of df k)"
  have "\<exists>d'. for_each same_team_step [1..<K] df = Inr d' \<and> ?P K d'"
  proof (rule for_each_upt [where P = ?P])
    show "?P 1 df" by simp
  next
    fix s d assume s: "1 \<le> s" "s < K" and P: "?P s d"
    from ts [OF s] obtain xs where xs: "map_of df (Delayed ''team_id'' s) = Some xs" by auto
    from P t0 xs have "map_of d (Delayed ''team_id'' 0) = Some t0"
      "map_of d (Delayed ''team_id'' s) = Some xs" by simp_all
    then have "same_team_step s d = Inr (AList.update (Delayed ''team'' s) (same_col t0 xs) d)"
      by (rule same_team_step_result)
    moreover have "?P (Suc s) (AList.update (Delayed ''team'' s) (same_col t0 xs) d)"
      using P xs by (auto simp: map_of_setcol less_Suc_eq)
    ultimately show "\<exists>d'. same_team_step s d = Inr d' \<and> ?P (Suc s) d'" by blast
  next
    show "1 \<le> K" by fact
  qed
  then show ?thesis by (simp add: add_same_team_def)
next
  case False
  then show ?thesis by (simp add: add_same_team_def)
qed

lemma loc_assign_result:
  assumes "map_of d (Delayed ''team'' s) = Some team" and "flags team"
    and "map_of d c = Some xs" and "numeric xs"
  shows "loc_assign d (not_col (getcol d (Delayed ''team'' s))) c
           (map_num (\<lambda>x. e - x) (getcol d c))
         = Inr (AList.update c (inverted e team xs) d)"
  using assms by (simp add: loc_assign_def not_col_def map_num_def inverted_def)

lemma invert_side_result:
  assumes team: "map_of d (Delayed ''team'' s) = Some team" "flags team"
    and x: "map_of d (Delayed (side @ ''_x'') s) = Some xs" "numeric xs"
    and y: "map_of d (Delayed (side @ ''_y'') s) = Some ys" "numeric ys"
  shows "invert_side s side d
         = Inr (AList.update (Delayed (side @ ''_y'') s) (inverted PITCH_WIDTH team ys)
                 (AList.update (Delayed (side @ ''_x'') s) (inverted PITCH_LENGTH team xs) d))"
proof -
  let ?d1 = "AList.update (Delayed (side @ ''_x'') s) (inverted PITCH_LENGTH team xs) d"
  have 1: "loc_assign d (not_col (getcol d (Delayed ''team'' s))) (Delayed (side @ ''_x'') s)
             (map_num (\<lambda>x. PITCH_LENGTH - x) (getcol d (Delayed (side @ ''_x'') s))) = Inr ?d1"
    by (rule loc_assign_result [OF team x])
  have t1: "map_of ?d1 (Delayed ''team'' s) = Some team"
    using team(1) by (simp add: map_of_setcol)
  have y1: "map_of ?d1 (Delayed (side @ ''_y'') s) = Some ys"
    using y(1) by (simp add: map_of_setcol)
  show ?thesis
    unfolding invert_side_def 1 and_then_Inr
    by (rule loc_assign_result [OF t1 team(2) y1 y(2)])
qed

lemma invert_step_result:
  assumes team: "map_of d (Delayed ''team'' s) = Some team" "flags team"
    and cols: "\<And>c. c \<in> set coords \<Longrightarrow> \<exists>xs. map_of d (Delayed c s) = Some xs \<and> numeric xs"
  shows "\<exists>d'. invert_step s d = Inr d'
           \<and> (\<forall>c\<in>set coords. map_of d' (Delayed c s)
                  = Some (inverted (extent c) team (the (map_of d (Delayed c s)))))
           \<and> (\<forall>k. (\<forall>c\<in>set coords. k \<noteq> Delayed c s) \<longrightarrow> map_of d' k = map_of d k)"
proof -
  from cols obtain sx sy ex ey where
    sx: "map_of d (Delayed ''start_x'' s) = Some sx" "numeric sx" and
    sy: "map_of d (Delayed ''start_y'' s) = Some sy" "numeric sy" and
    ex: "map_of d (Delayed ''end_x'' s) = Some ex" "numeric ex" and
    ey: "map_of d (Delayed ''end_y'' s) = Some ey" "numeric ey"
    unfolding coords_def by (metis list.set_intros)
  let ?d1 = "AList.update (Delayed ''start_y'' s) (inverted PITCH_WIDTH team sy)
               (AList.update (Delayed ''start_x'' s) (inverted PITCH_LENGTH team sx) d)"
  let ?d2 = "AList.update (Delayed ''end_y'' s) (inverted PITCH_WIDTH team ey)
               (AList.update (Delayed ''end_x'' s) (inverted PITCH_LENGTH team ex) ?d1)"
  have 1: "invert_side s ''start'' d = Inr ?d1"
    using invert_side_result [of d s team "''start''" sx sy] team sx sy by simp
  have "invert_side s ''end'' ?d1 = Inr ?d2"
    using invert_side_result [of ?d1 s team "''end''" ex ey] team ex ey
    by (simp add: map_of_setcol)
  with 1 have "invert_step s d = Inr ?d2"
    by (simp add: invert_step_def)
  moreover have "\<forall>c\<in>set coords. map_of ?d2 (Delayed c s)
                  = Some (inverted (extent c) team (the (map_of d (Delayed c s))))"
    using sx sy ex ey by (simp add: coords_def extent_def map_of_setcol)
  moreover have "\<forall>k. (\<forall>c\<in>set coords. k \<noteq> Delayed c s) \<longrightarrow> map_of ?d2 k = map_of d k"
    by (simp add: coords_def map_of_setcol)
  ultimately show ?thesis by blast
qed

lemma invert_coordinates_result:
  assumes team: "\<And>j. 1 \<le> j \<Longrightarrow> j < K \<Longrightarrow> \<exists>tm. map_of df (Delayed ''team'' j) = Some tm \<and> flags tm"
    and cols: "\<And>j c. 1 \<le> j \<Longrightarrow> j < K \<Longrightarrow> c \<in> set coords
                 \<Longrightarrow> \<exists>xs. map_of df (Delayed c j) = Some xs \<and> numeric xs"
  shows "\<exists>d. invert_coordinates df K = Inr d
           \<and> (\<forall>j c. 1 \<le> j \<and> j < K \<and> c \<in> set coords \<longrightarrow> map_of d (Delayed c j)
                  = Some (inverted (extent c) (the (map_of df (Delayed ''team'' j)))
                                   (the (map_of df (Delayed c j)))))
           \<and> (\<forall>k. (\<forall>j c. 1 \<le> j \<and> j < K \<and> c \<in> set coords \<longrightarrow> k \<noteq> Delayed c j)
                  \<longrightarrow> map_of d k = map_of df k)"
proof (cases "1 \<le> K")
  case True
  let ?P = "\<lambda>s d. (\<forall>j c. 1 \<le> j \<and> j < s \<and> c \<in> set coords \<longrightarrow> map_of d (Delayed c j)
                  = Some (inverted (extent c) (the (map_of df (Delayed ''team'' j)))
                                   (the (map_of df (Delayed c j)))))
           \<and> (\<forall>k. (\<forall>j c. 1 \<le> j \<and> j < s \<and> c \<in> set coords \<longrightarrow> k \<noteq> Delayed c j)
                  \<longrightarrow> map_of d k = map_of df k)"
  have "\<exists>d'. for_each invert_step [1..<K] df = Inr d' \<and> ?P K d'"
  proof (rule for_each_upt [where P = ?P])
    show "?P 1 df" by simp
  next
    fix s d assume s: "1 \<le> s" "s < K" and P: "?P s d"
    from team [OF s] obtain tm where tm: "map_of df (Delayed ''team'' s) = Some tm" "flags tm"
      by auto
    have same: "map_of d (Delayed c s) = map_of df (Delayed c s)" for c
      using P by simp
    have "''team'' \<notin> set coords" by (simp add: coords_def)
    then have "map_of d (Delayed ''team'' s) = map_of df (Delayed ''team'' s)"
      using P by auto
    with tm have t: "map_of d (Delayed ''team'' s) = Some tm" by simp
    have c: "\<And>c. c \<in> set coords \<Longrightarrow> \<exists>xs. map_of d (Delayed c s) = Some xs \<and> numeric xs"
      using cols [OF s] same by simp
    from invert_step_result [OF t tm(2) c] obtain d' where d':
      "invert_step s d = Inr d'"
      "\<forall>c\<in>set coords. map_of d' (Delayed c s)
          = Some (inverted (extent c) tm (the (map_of d (Delayed c s))))"
      "\<forall>k. (\<forall>c\<in>set coords. k \<noteq> Delayed c s) \<longrightarrow> map_of d' k = map_of d k"
      by blast
    have "?P (Suc s) d'"
    proof (intro conjI allI impI)
      fix j c assume a: "1 \<le> j \<and> j < Suc s \<and> c \<in> set coords"
      show "map_of d' (Delayed c j)
              = Some (inverted (extent c) (the (map_of df (Delayed ''team'' j)))
                               (the (map_of df (Delayed c j))))"
      proof (cases "j = s")
        case True
        with a d'(2) tm same show ?thesis by simp
      next
        case False
        with a have "j < s" by simp
        moreover from False have "\<forall>c'\<in>set coords. Delayed c j \<noteq> Delayed c' s" by simp
        ultimately show ?thesis using d'(3) P a by simp
      qed
    next
      fix k assume k: "\<forall>j c. 1 \<le> j \<and> j < Suc s \<and> c \<in> set coords \<longrightarrow> k \<noteq> Delayed c j"
      with s have "\<forall>c\<in>set coords. k \<noteq> Delayed c s" by simp
      with d'(3) have "map_of d' k = map_of d k" by simp
      also from k have "\<forall>j c. 1 \<le> j \<and> j < s \<and> c \<in> set coords \<longrightarrow> k \<noteq> Delayed c j"
        by simp
      with P have "map_of d k = map_of df k" by simp
      finally show "map_of d' k = map_of df k" .
    qed
    with d'(1) show "\<exists>d'. invert_step s d = Inr d' \<and> ?P (Suc s) d'" by blast
  next
    show "1 \<le> K" by fact
  qed
  then show ?thesis by (simp add: invert_coordinates_def)
next
  case False
  then show ?thesis by (simp add: invert_coordinates_def)
qed

lemma flags_same_col [simp]: "flags (same_col xs ys)"
  by (auto simp: flags_iff same_col_def dest!: in_set_zipE)

lemma length_same_col [simp]: "length (same_col xs ys) = min (length xs) (length ys)"
  by (simp add: same_col_def)

lemma same_col_nth:
  "i < length xs \<Longrightarrow> i < length ys \<Longrightarrow> same_col xs ys ! i = Flag (cell_eq (xs ! i) (ys ! i))"
  by (simp add: same_col_def)

lemma length_inverted [simp]:
  "length (inverted e tm xs) = min (length tm) (length xs)"
  by (simp add: inverted_def masked_def)

lemma inverted_nth:
  "i < length tm \<Longrightarrow> i < length xs \<Longrightarrow> tm ! i = Flag b \<Longrightarrow>
   inverted e tm xs ! i = (if b then xs ! i else cell_map (\<lambda>x. e - x) (xs ! i))"
  by (simp add: inverted_def masked_def)

lemma cell_eq_NaN [simp]: "cell_eq x NaN = False"
  by (cases x) simp_all

lemma normalize_window_result:
  assumes t0: "map_of df (Delayed ''team_id'' 0) = Some t0"
    and ts: "\<And>j. 1 \<le> j \<Longrightarrow> j < K \<Longrightarrow> map_of df (Delayed ''team_id'' j) \<noteq> None"
    and cols: "\<And>j c. 1 \<le> j \<Longrightarrow> j < K \<Longrightarrow> c \<in> set coords
                 \<Longrightarrow> \<exists>xs. map_of df (Delayed c j) = Some xs \<and> numeric xs"
  shows "\<exists>d. normalize_window df K = Inr d
           \<and> (\<forall>j c. 1 \<le> j \<and> j < K \<and> c \<in> set coords \<longrightarrow> map_of d (Delayed c j)
                  = Some (inverted (extent c)
                            (same_col t0 (the (map_of df (Delayed ''team_id'' j))))
                            (the (map_of df (Delayed c j)))))
           \<and> (\<forall>c \<in> set coords. map_of d (Delayed c 0) = map_of df (Delayed c 0))"
proof -
  from add_same_team_result [OF t0 ts] obtain d1 where d1:
    "add_same_team df K = Inr d1"
    "\<forall>j. 1 \<le> j \<and> j < K \<longrightarrow> map_of d1 (Delayed ''team'' j)
          = Some (same_col t0 (the (map_of df (Delayed ''team_id'' j))))"
    "\<forall>k. (\<forall>j. k \<noteq> Delayed ''team'' j) \<longrightarrow> map_of d1 k = map_of df k"
    by blast
  have keep: "map_of d1 (Delayed c j) = map_of df (Delayed c j)" if "c \<in> set coords" for c j
    using that d1(3) by (auto simp: coords_def)
  have team: "\<exists>tm. map_of d1 (Delayed ''team'' j) = Some tm \<and> flags tm"
    if "1 \<le> j" "j < K" for j
    using that d1(2) by simp
  have cols1: "\<exists>xs. map_of d1 (Delayed c j) = Some xs \<and> numeric xs"
    if "1 \<le> j" "j < K" "c \<in> set coords" for j c
    using cols [OF that] keep [OF that(3)] by simp
  from invert_coordinates_result [of K d1, OF team cols1] obtain d2 where d2:
    "invert_coordinates d1 K = Inr d2"
    "\<forall>j c. 1 \<le> j \<and> j < K \<and> c \<in> set coords \<longrightarrow> map_of d2 (Delayed c j)
          = Some (inverted (extent c) (the (map_of d1 (Delayed ''team'' j)))
                           (the (map_of d1 (Delayed c j))))"
    "\<forall>k. (\<forall>j c. 1 \<le> j \<and> j < K \<and> c \<in> set coords \<longrightarrow> k \<noteq> Delayed c j)
          \<longrightarrow> map_of d2 k = map_of d1 k"
    by blast
  have "normalize_window df K = Inr d2"
    using d1(1) d2(1) by (simp add: normalize_window_def)
  moreover have "map_of d2 (Delayed c j)
        = Some (inverted (extent c) (same_col t0 (the (map_of df (Delayed ''team_id'' j))))
                         (the (map_of df (Delayed c j))))"
    if "1 \<le> j \<and> j < K \<and> c \<in> set coords" for j c
    using that d2(2) d1(2) keep by simp
  moreover have "map_of d2 (Delayed c 0) = map_of df (Delayed c 0)" if "c \<in> set coords" for c
    using that d2(3) keep by simp
  ultimately show ?thesis by blast
qed

lemma normalize_window_cell:
  assumes t0: "map_of df (Delayed ''team_id'' 0) = Some t0" "length t0 = n"
    and ts: "\<And>j. 1 \<le> j \<Longrightarrow> j < K
               \<Longrightarrow> \<exists>ts. map_of df (Delayed ''team_id'' j) = Some ts \<and> length ts = n"
    and cols: "\<And>j c. 1 \<le> j \<Longrightarrow> j < K \<Longrightarrow> c \<in> set coords
                 \<Longrightarrow> \<exists>xs. map_of df (Delayed c j) = Some xs \<and> numeric xs \<and> length xs = n"
    and s: "1 \<le> s" "s < K" and i: "i < n" and c: "c \<in> set coords"
  shows "cell_at (normalize_window df K) (Delayed c s) i
         = Some (if cell_eq (t0 ! i) (the (map_of df (Delayed ''team_id'' s)) ! i)
                 then the (map_of df (Delayed c s)) ! i
                 else cell_map (\<lambda>x. extent c - x) (the (map_of df (Delayed c s)) ! i))"
proof -
  have ts': "\<And>j. 1 \<le> j \<Longrightarrow> j < K \<Longrightarrow> map_of df (Delayed ''team_id'' j) \<noteq> None"
    using ts by fastforce
  have cols': "\<And>j c. 1 \<le> j \<Longrightarrow> j < K \<Longrightarrow> c \<in> set coords
                 \<Longrightarrow> \<exists>xs. map_of df (Delayed c j) = Some xs \<and> numeric xs"
    using cols by fastforce
  from normalize_window_result [OF t0(1) ts' cols'] obtain d where d:
    "normalize_window df K = Inr d"
    "\<forall>j c. 1 \<le> j \<and> j < K \<and> c \<in> set coords \<longrightarrow> map_of d (Delayed c j)
          = Some (inverted (extent c)
                    (same_col t0 (the (map_of df (Delayed ''team_id'' j))))
                    (the (map_of df (Delayed c j))))"
    by blast
  from ts [OF s] obtain tm where tm: "map_of df (Delayed ''team_id'' s) = Some tm" "length tm = n"
    by blast
  from cols [OF s c] obtain xs where xs: "map_of df (Delayed c s) = Some xs" "length xs = n"
    by blast
  have "map_of d (Delayed c s) = Some (inverted (extent c) (same_col t0 tm) xs)"
    using d(2) s c tm xs by simp
  moreover have "inverted (extent c) (same_col t0 tm) xs ! i
      = (if cell_eq (t0 ! i) (tm ! i) then xs ! i else cell_map (\<lambda>x. extent c - x) (xs ! i))"
    using i t0(2) tm(2) xs(2) by (simp add: inverted_nth [where b = "cell_eq (t0 ! i) (tm ! i)"] same_col_nth)
  ultimately show ?thesis
    using d(1) i t0(2) tm xs by (simp add: cell_at_def)
qed

lemma has_columnsD:
  "has_columns df cs n \<Longrightarrow> c \<in> set cs \<Longrightarrow> \<exists>xs. map_of df (Plain c) = Some xs \<and> length xs = n"
  by (auto simp: has_columns_def list_all_iff split: option.splits)

lemma window_tableD:
  assumes "window_table df K n" and "j < K"
  shows "\<exists>ts. map_of df (Delayed ''team_id'' j) = Some ts \<and> length ts = n"
    and "c \<in> set coords \<Longrightarrow> \<exists>xs. map_of df (Delayed c j) = Some xs \<and> numeric xs \<and> length xs = n"
proof -
  from assms have j: "(case map_of df (Delayed ''team_id'' j) of None \<Rightarrow> False | Some xs \<Rightarrow> length xs = n)
       \<and> list_all (\<lambda>c. case map_of df (Delayed c j) of None \<Rightarrow> False
                         | Some xs \<Rightarrow> length xs = n \<and> numeric xs) coords"
    by (simp add: window_table_def list_all_iff)
  then show "\<exists>ts. map_of df (Delayed ''team_id'' j) = Some ts \<and> length ts = n"
    by (simp split: option.splits)
  from j have "c \<in> set coords \<Longrightarrow> (case map_of df (Delayed c j) of None \<Rightarrow> False
                         | Some xs \<Rightarrow> length xs = n \<and> numeric xs)"
    by (simp add: list_all_iff)
  then show "c \<in> set coords \<Longrightarrow> \<exists>xs. map_of df (Delayed c j) = Some xs \<and> numeric xs \<and> length xs = n"
    by (simp split: option.splits)
qed

lemma window_table_example: "window_table example_window 2 2"
  by (simp add: window_table_def example_window_def coords_def numeric_def numeral_2_eq_2)

section \<open>Location features: what the loop computes\<close>

lemma is_numeric_cell_map [simp]: "is_numeric (cell_map f c)"
  by (cases c) simp_all

lemma is_numeric_cell_sqrt [simp]: "is_numeric (cell_sqrt c)"
  by (cases c) simp_all

lemma is_numeric_cell_divide_where [simp]: "is_numeric (cell_divide_where x y)"
  by (simp add: cell_divide_where_def)

lemma numeric_map_cell_map [simp]: "numeric (map (cell_map f) xs)"
  by (simp add: numeric_iff)

lemma numeric_map_cell_sqrt [simp]: "numeric (map cell_sqrt xs)"
  by (simp add: numeric_iff)

lemma map_num_Inr [simp]: "numeric xs \<Longrightarrow> map_num f (Inr xs) = Inr (map (cell_map f) xs)"
  by (simp add: map_num_def)

lemma sqrt_col_Inr [simp]: "numeric xs \<Longrightarrow> sqrt_col (Inr xs) = Inr (map cell_sqrt xs)"
  by (simp add: sqrt_col_def)

lemma divide_where_Inr [simp]:
  "numeric xs \<Longrightarrow> numeric ys \<Longrightarrow>
   divide_where Float64 io (Inr xs) (Inr ys) = Inr (map2 cell_divide_where xs ys)"
  by (simp add: divide_where_def)

lemma angle_column_nth:
  "i < length xs \<Longrightarrow> i < length ys \<Longrightarrow> angle_column xs ys ! i = angle_to_goal (xs ! i) (ys ! i)"
  by (simp add: angle_column_def angle_to_goal_def)

lemma length_angle_column [simp]: "length (angle_column xs ys) = min (length xs) (length ys)"
  by (simp add: angle_column_def)

lemma location_side_result:
  assumes side: "side = ''start'' \<or> side = ''end''"
    and dt: "dt (Delayed (side @ ''_x'') s) = Float64"
    and x: "map_of d (Delayed (side @ ''_x'') s) = Some xs" "numeric xs"
    and y: "map_of d (Delayed (side @ ''_y'') s) = Some ys" "numeric ys"
    and sx: "map_of d (Delayed ''start_x'' s) = Some sx" "numeric sx"
    and sy: "map_of d (Delayed ''start_y'' s) = Some sy" "numeric sy"
    and ex: "map_of d (Delayed ''end_x'' s) = Some ex" "numeric ex"
    and ey: "map_of d (Delayed ''end_y'' s) = Some ey" "numeric ey"
  shows "\<exists>d'. location_side dt io s side d = Inr d'
           \<and> map_of d' (Delayed (side @ ''_angle_to_goal'') s) = Some (angle_column xs ys)
           \<and> (\<forall>k. (\<forall>nm\<in>set (side_names side). k \<noteq> Delayed nm s) \<longrightarrow> map_of d' k = map_of d k)"
  using side
proof
  assume "side = ''start''"
  with assms show ?thesis
    by (simp add: location_side_def diff_x_of_def diff_y_of_def map_of_setcol angle_column_def
          side_names_def del: map_map)
next
  assume "side = ''end''"
  with assms show ?thesis
    by (simp add: location_side_def diff_x_of_def diff_y_of_def map_of_setcol angle_column_def
          side_names_def del: map_map)
qed

lemma location_step_result:
  assumes dt: "dt (Delayed ''start_x'' s) = Float64" "dt (Delayed ''end_x'' s) = Float64"
    and sx: "map_of d (Delayed ''start_x'' s) = Some sx" "numeric sx"
    and sy: "map_of d (Delayed ''start_y'' s) = Some sy" "numeric sy"
    and ex: "map_of d (Delayed ''end_x'' s) = Some ex" "numeric ex"
    and ey: "map_of d (Delayed ''end_y'' s) = Some ey" "numeric ey"
  shows "\<exists>d'. location_step dt io s d = Inr d'
           \<and> map_of d' (Delayed ''start_angle_to_goal'' s) = Some (angle_column sx sy)
           \<and> map_of d' (Delayed ''end_angle_to_goal'' s) = Some (angle_column ex ey)
           \<and> (\<forall>k. (\<forall>nm\<in>set location_names. k \<noteq> Delayed nm s) \<longrightarrow> map_of d' k = map_of d k)"
proof -
  from location_side_result [where side = "''start''" and dt = dt and io = io and d = d
      and s = s and xs = sx and ys = sy and sx = sx and sy = sy and ex = ex and ey = ey] assms
  obtain d1 where d1: "location_side dt io s ''start'' d = Inr d1"
    "map_of d1 (Delayed ''start_angle_to_goal'' s) = Some (angle_column sx sy)"
    "\<forall>k. (\<forall>nm\<in>set (side_names ''start''). k \<noteq> Delayed nm s) \<longrightarrow> map_of d1 k = map_of d k"
    by auto
  have keep1: "map_of d1 (Delayed c s) = map_of d (Delayed c s)" if "c \<in> set coords" for c
    using that d1(3) by (auto simp: coords_def side_names_def)
  from location_side_result [where side = "''end''" and dt = dt and io = io and d = d1
      and s = s and xs = ex and ys = ey and sx = sx and sy = sy and ex = ex and ey = ey] assms keep1
  obtain d2 where d2: "location_side dt io s ''end'' d1 = Inr d2"
    "map_of d2 (Delayed ''end_angle_to_goal'' s) = Some (angle_column ex ey)"
    "\<forall>k. (\<forall>nm\<in>set (side_names ''end''). k \<noteq> Delayed nm s) \<longrightarrow> map_of d2 k = map_of d1 k"
    by (auto simp: coords_def)
  have "location_step dt io s d = Inr d2"
    using d1(1) d2(1) by (simp add: location_step_def)
  moreover have "map_of d2 (Delayed ''start_angle_to_goal'' s) = Some (angle_column sx sy)"
    using d2(3) d1(2) by (simp add: side_names_def)
  moreover have "map_of d2 k = map_of d k" if "\<forall>nm\<in>set location_names. k \<noteq> Delayed nm s" for k
  proof -
    from that have "\<forall>nm\<in>set (side_names ''end''). k \<noteq> Delayed nm s"
      and "\<forall>nm\<in>set (side_names ''start''). k \<noteq> Delayed nm s"
      by (simp_all add: location_names_def side_names_def)
    with d2(3) d1(3) show ?thesis by simp
  qed
  ultimately show ?thesis using d2(2) by blast
qed

lemma add_location_features_result:
  assumes dt: "\<And>j. j < K \<Longrightarrow> dt (Delayed ''start_x'' j) = Float64 \<and> dt (Delayed ''end_x'' j) = Float64"
    and cols: "\<And>j c. j < K \<Longrightarrow> c \<in> set coords
                 \<Longrightarrow> \<exists>xs. map_of df (Delayed c j) = Some xs \<and> numeric xs"
  shows "\<exists>d. add_location_features dt io df K = Inr d
           \<and> (\<forall>j<K. map_of d (Delayed ''start_angle_to_goal'' j)
                  = Some (angle_column (the (map_of df (Delayed ''start_x'' j)))
                                       (the (map_of df (Delayed ''start_y'' j))))
                \<and> map_of d (Delayed ''end_angle_to_goal'' j)
                  = Some (angle_column (the (map_of df (Delayed ''end_x'' j)))
                                       (the (map_of df (Delayed ''end_y'' j)))))"
proof -
  let ?A = "\<lambda>d j. map_of d (Delayed ''start_angle_to_goal'' j)
                  = Some (angle_column (the (map_of df (Delayed ''start_x'' j)))
                                       (the (map_of df (Delayed ''start_y'' j))))
                \<and> map_of d (Delayed ''end_angle_to_goal'' j)
                  = Some (angle_column (the (map_of df (Delayed ''end_x'' j)))
                                       (the (map_of df (Delayed ''end_y'' j))))"
  let ?P = "\<lambda>s d. (\<forall>j<s. ?A d j)
              \<and> (\<forall>j c. c \<in> set coords \<longrightarrow> map_of d (Delayed c j) = map_of df (Delayed c j))"
  have "\<exists>d'. for_each (location_step dt io) [0..<K] df = Inr d' \<and> ?P K d'"
  proof (rule for_each_upt [where P = ?P])
    show "?P 0 df" by simp
  next
    fix s d assume s: "0 \<le> s" "s < K" and P: "?P s d"
    have c: "\<exists>xs. map_of d (Delayed c s) = Some xs \<and> numeric xs" if "c \<in> set coords" for c
      using cols [OF s(2) that] P that by simp
    from c obtain sx sy ex ey where
      sx: "map_of d (Delayed ''start_x'' s) = Some sx" "numeric sx" and
      sy: "map_of d (Delayed ''start_y'' s) = Some sy" "numeric sy" and
      ex: "map_of d (Delayed ''end_x'' s) = Some ex" "numeric ex" and
      ey: "map_of d (Delayed ''end_y'' s) = Some ey" "numeric ey"
      unfolding coords_def by (metis list.set_intros)
    from dt [OF s(2)] have dts: "dt (Delayed ''start_x'' s) = Float64"
      "dt (Delayed ''end_x'' s) = Float64" by simp_all
    from location_step_result [OF dts sx sy ex ey] obtain d' where d':
      "location_step dt io s d = Inr d'"
      "map_of d' (Delayed ''start_angle_to_goal'' s) = Some (angle_column sx sy)"
      "map_of d' (Delayed ''end_angle_to_goal'' s) = Some (angle_column ex ey)"
      "\<forall>k. (\<forall>nm\<in>set location_names. k \<noteq> Delayed nm s) \<longrightarrow> map_of d' k = map_of d k"
      by blast
    have same: "map_of d (Delayed c j) = map_of df (Delayed c j)" if "c \<in> set coords" for c j
      using P that by simp
    have 1: "?A d' j" if "j < Suc s" for j
    proof (cases "j = s")
      case True
      have "map_of df (Delayed ''start_x'' s) = Some sx" "map_of df (Delayed ''start_y'' s) = Some sy"
        "map_of df (Delayed ''end_x'' s) = Some ex" "map_of df (Delayed ''end_y'' s) = Some ey"
        using sx sy ex ey same by (simp_all add: coords_def)
      with True d'(2,3) show ?thesis by simp
    next
      case False
      with that have "j < s" by simp
      with P have "?A d j" by simp
      moreover from False have "map_of d' (Delayed nm j) = map_of d (Delayed nm j)" for nm
        using d'(4) by simp
      ultimately show ?thesis by simp
    qed
    have 2: "map_of d' (Delayed c j) = map_of df (Delayed c j)" if "c \<in> set coords" for c j
    proof -
      from that have "\<forall>nm\<in>set location_names. Delayed c j \<noteq> Delayed nm s"
        by (auto simp: coords_def location_names_def)
      with d'(4) same [OF that] show ?thesis by simp
    qed
    from 1 2 d'(1) show "\<exists>d'. location_step dt io s d = Inr d' \<and> ?P (Suc s) d'" by blast
  next
    show "0 \<le> K" by simp
  qed
  then show ?thesis by (auto simp: add_location_features_def)
qed

lemma angle_to_goal_Num:
  "angle_to_goal (Num x) (Num y)
     = Num (if abs (GOAL_Y - y) = 0 then 0 else (GOAL_X - x) / abs (GOAL_Y - y))"
  by (simp add: angle_to_goal_def cell_divide_where_def)

lemma angle_to_goal_NaN [simp]: "angle_to_goal c NaN = NaN"
  by (cases c) (simp_all add: angle_to_goal_def cell_divide_where_def)

lemma cell_at_angle:
  assumes win: "window_table df K n" and fl: "float64_x dt K" and s: "s < K" and i: "i < n"
    and side: "side = ''start'' \<or> side = ''end''"
  shows "cell_at (add_location_features dt io df K) (Delayed (side @ ''_angle_to_goal'') s) i
         = Some (angle_to_goal (the (map_of df (Delayed (side @ ''_x'') s)) ! i)
                               (the (map_of df (Delayed (side @ ''_y'') s)) ! i))"
proof -
  have cols: "\<And>j c. j < K \<Longrightarrow> c \<in> set coords
                 \<Longrightarrow> \<exists>xs. map_of df (Delayed c j) = Some xs \<and> numeric xs"
    using window_tableD(2) [OF win] by blast
  have dts: "\<And>j. j < K \<Longrightarrow> dt (Delayed ''start_x'' j) = Float64 \<and> dt (Delayed ''end_x'' j) = Float64"
    using fl by (simp add: float64_x_def list_all_iff)
  from add_location_features_result [of K dt df io, OF dts cols] s obtain d where d:
    "add_location_features dt io df K = Inr d"
    "map_of d (Delayed ''start_angle_to_goal'' s)
       = Some (angle_column (the (map_of df (Delayed ''start_x'' s)))
                            (the (map_of df (Delayed ''start_y'' s))))"
    "map_of d (Delayed ''end_angle_to_goal'' s)
       = Some (angle_column (the (map_of df (Delayed ''end_x'' s)))
                            (the (map_of df (Delayed ''end_y'' s))))"
    by blast
  have len: "length (the (map_of df (Delayed c s))) = n" if "c \<in> set coords" for c
    using window_tableD(2) [OF win s that] by auto
  from side show ?thesis
  proof
    assume "side = ''start''"
    then show ?thesis
      using d(1,2) i len [of "''start_x''"] len [of "''start_y''"]
      by (simp add: cell_at_def angle_column_nth coords_def)
  next
    assume "side = ''end''"
    then show ?thesis
      using d(1,3) i len [of "''end_x''"] len [of "''end_y''"]
      by (simp add: cell_at_def angle_column_nth coords_def)
  qed
qed

lemma float64_x_all_float64: "float64_x all_float64 K"
  by (simp add: float64_x_def all_float64_def list_all_iff)

text \<open>The definitions that evaluate \<^verbatim>\<open>add_location_features\<close> on a given table.\<close>

lemmas location_defs = add_location_features_def location_step_def location_side_def
  diff_x_of_def diff_y_of_def sqrt_col_def divide_where_def cell_divide_where_def arith2_def
  map_num_def setcol_def getcol_def numeric_def
  PITCH_LENGTH_def PITCH_WIDTH_def GOAL_X_def GOAL_Y_def

lemma normalize_example_window: "normalize_window example_window 2 = Inr example_normalized"
  by (simp add: normalize_window_def add_same_team_def same_team_step_def eq_cols_def
        invert_coordinates_def invert_step_def invert_side_def loc_assign_def not_col_def
        map_num_def masked_def numeric_def flags_def numeral_2_eq_2
        PITCH_LENGTH_def PITCH_WIDTH_def example_window_def example_normalized_def)

lemma window_table_normalized: "window_table example_normalized 2 2"
  by (simp add: window_table_def example_normalized_def coords_def numeric_def numeral_2_eq_2)

section \<open>One-hot encoding: the columns added\<close>

lemma set_strings_of: "s \<in> set (strings_of xs) \<longleftrightarrow> Str s \<in> set xs"
  by (induction xs rule: strings_of.induct) auto

lemma map_of_dummies:
  "map_of (map (\<lambda>v. (Plain v, f v)) vs) (Plain u) = (if u \<in> set vs then Some (f u) else None)"
  by (induction vs) auto

lemma map_of_dummies_other [simp]:
  "map_of (map (\<lambda>v. (Plain v, f v)) vs) (Delayed c s) = None"
  "map_of (map (\<lambda>v. (Plain v, f v)) vs) (Ahead c s) = None"
  by (induction vs) auto

lemma merge_on_index_disjoint:
  assumes "set (map fst left) \<inter> set (map fst right) = {}"
  shows "merge_on_index left right = left @ right"
proof -
  have l: "c \<notin> set (map fst right)" if "(c, xs) \<in> set left" for c xs
    using that assms by force
  have r: "c \<notin> set (map fst left)" if "(c, xs) \<in> set right" for c xs
    using that assms by force
  have "map (\<lambda>(c, xs). (if c \<in> set (map fst right) then with_suffix ''_x'' c else c, xs)) left = left"
    by (intro map_idI) (use l in \<open>auto split: prod.splits\<close>)
  moreover have "map (\<lambda>(c, xs). (if c \<in> set (map fst left) then with_suffix ''_y'' c else c, xs)) right = right"
    by (intro map_idI) (use r in \<open>auto split: prod.splits\<close>)
  ultimately show ?thesis by (simp add: merge_on_index_def)
qed

lemma add_action_type_dummies_result:
  assumes tn: "map_of df (Plain ''type_name'') = Some tn" and str: "list_all is_str tn"
    and fresh: "\<forall>u\<in>set (strings_of tn). map_of df (Plain u) = None"
  shows "\<exists>df'. add_action_type_dummies df = Inr df'
           \<and> (\<forall>u. map_of df' (Plain u)
                  = (if u \<in> set (strings_of tn) then Some (map (\<lambda>c. Num (of_bool (c = Str u))) tn)
                     else map_of df (Plain u)))"
proof -
  let ?dm = "map (\<lambda>v. (Plain v, map (\<lambda>c. Num (of_bool (c = Str v))) tn))
                 (sort (remdups (strings_of tn)))"
  have dm: "get_dummies (getcol df (Plain ''type_name'')) = Inr ?dm"
    using tn str by (simp add: get_dummies_def)
  have "set (map fst df) \<inter> set (map fst ?dm) = {}"
  proof -
    have "c \<notin> set (map fst df)" if "c \<in> set (map fst ?dm)" for c
    proof -
      from that obtain u where u: "c = Plain u" "u \<in> set (strings_of tn)" by auto
      with fresh have "map_of df (Plain u) = None" by simp
      then show ?thesis using u(1) by (simp add: map_of_eq_None_iff)
    qed
    then show ?thesis by blast
  qed
  then have "merge_on_index df ?dm = df @ ?dm" by (rule merge_on_index_disjoint)
  then have "add_action_type_dummies df = Inr (df @ ?dm)"
    using dm by (simp add: add_action_type_dummies_def)
  moreover have "map_of (df @ ?dm) (Plain u)
                  = (if u \<in> set (strings_of tn) then Some (map (\<lambda>c. Num (of_bool (c = Str u))) tn)
                     else map_of df (Plain u))" for u
    using fresh by (auto simp: map_of_dummies map_add_def split: option.splits)
  ultimately show ?thesis by blast
qed

text \<open>
  What \<^verbatim>\<open>add_action_type_dummies\<close> adds to the table of actions: one indicator column
  for each action-type name that occurs in the \<^verbatim>\<open>type_name\<close> column \<open>tn\<close> of the
  match, and none for a name that does not occur (\<^verbatim>\<open>pd.get_dummies\<close> makes the columns
  from the values it sees); in the row of an action the indicator of the action's own type
  is 1 and all other indicators are 0. The names in \<open>tn\<close> are strings, none of them the
  name of a column of the table; row \<open>i\<close> has type \<open>t\<close>, and \<open>u\<close> is any name.
\<close>

lemma action_type_dummies:
  assumes "map_of df (Plain ''type_name'') = Some tn" and "list_all is_str tn"
    and "\<forall>u\<in>set (strings_of tn). map_of df (Plain u) = None"
    and "i < length tn" and "tn ! i = Str t"
  shows "cell_at (add_action_type_dummies df) (Plain u) i
         = (if u \<in> set (strings_of tn) then Some (Num (if u = t then 1 else 0))
            else cell_at (Inr df) (Plain u) i)"
proof -
  from add_action_type_dummies_result [OF assms(1-3)] obtain df' where
    "add_action_type_dummies df = Inr df'"
    "\<forall>u. map_of df' (Plain u)
          = (if u \<in> set (strings_of tn) then Some (map (\<lambda>c. Num (of_bool (c = Str u))) tn)
             else map_of df (Plain u))"
    by blast
  then show ?thesis using assms(4,5) by (auto simp: cell_at_def)
qed

lemma action_type_dummies_example:
  "cell_at (add_action_type_dummies
      [(Plain ''team_id'', [Num 7, Num 8]), (Plain ''type_name'', [Str ''pass'', Str ''shot''])])
      (Plain ''shot'') 0 = Some (Num 0)
   \<and> cell_at (add_action_type_dummies
      [(Plain ''team_id'', [Num 7, Num 8]), (Plain ''type_name'', [Str ''pass'', Str ''shot''])])
      (Plain ''pass'') 0 = Some (Num 1)
   \<and> cell_at (add_action_type_dummies
      [(Plain ''team_id'', [Num 7, Num 8]), (Plain ''type_name'', [Str ''pass'', Str ''shot''])])
      (Plain ''cross'') 0 = None"
  using action_type_dummies [of "[(Plain ''team_id'', [Num 7, Num 8]), (Plain ''type_name'', [Str ''pass'', Str ''shot''])]"
           "[Str ''pass'', Str ''shot'']" 0 "''pass''" "''shot''"]
    action_type_dummies [of "[(Plain ''team_id'', [Num 7, Num 8]), (Plain ''type_name'', [Str ''pass'', Str ''shot''])]"
           "[Str ''pass'', Str ''shot'']" 0 "''pass''" "''pass''"]
    action_type_dummies [of "[(Plain ''team_id'', [Num 7, Num 8]), (Plain ''type_name'', [Str ''pass'', Str ''shot''])]"
           "[Str ''pass'', Str ''shot'']" 0 "''pass''" "''cross''"]
  by (simp add: cell_at_def)

text \<open>The definitions that evaluate \<^verbatim>\<open>create_features_match\<close> on a given table.\<close>

lemmas pipeline_defs = create_features_match_def add_action_type_dummies_def get_dummies_def
  merge_on_index_def add_time_played_def arith2_def ge_scalar_def eq_scalar_def times_scalar_def
  create_delayed_features_def delayed_def shift_def add_same_team_def same_team_step_def
  eq_cols_def invert_coordinates_def invert_step_def invert_side_def loc_assign_def not_col_def
  map_num_def masked_def add_location_features_def location_step_def location_side_def
  diff_x_of_def diff_y_of_def sqrt_col_def divide_where_def cell_divide_where_def
  add_sequence_pre_features_def getcol_delay_def add_sequence_post_features_def
  features_to_delay_def setcol_def getcol_def numeric_def flags_def
  PITCH_LENGTH_def PITCH_WIDTH_def GOAL_X_def GOAL_Y_def

section \<open>Labels: what the loops compute\<close>

lemma length_fill_tail [simp]: "length (fill_tail i v xs) = length xs"
  by (simp add: fill_tail_def)

lemma length_ahead [simp]: "length (ahead i xs) = length xs"
  by (simp add: ahead_def)

lemma ahead_nth:
  assumes "j < length xs"
  shows "ahead i xs ! j = xs ! min (j + i) (length xs - 1)"
proof (cases "i = 0")
  case True
  with assms show ?thesis
    by (auto simp add: ahead_def fill_tail_def shift_def min_def)
next
  case False
  then have "shift (- int i) xs = drop i xs @ replicate (min i (length xs)) NaN"
    by (simp add: shift_def)
  then have "ahead i xs = drop i xs @ replicate (min i (length xs)) (xs ! (length xs - 1))"
    by (simp add: ahead_def fill_tail_def)
  with assms show ?thesis
    by (auto simp: nth_append min_def add.commute)
qed

lemma future_col_result:
  assumes "map_of y (Plain c) = Some xs" and "xs \<noteq> []"
  shows "future_col i c y = Inr (AList.update (Ahead c i) (ahead i xs) y)"
  using assms by (simp add: future_col_def ahead_def)

lemma future_step_result:
  assumes "\<And>c. c \<in> set label_cols \<Longrightarrow> \<exists>xs. map_of y (Plain c) = Some xs \<and> xs \<noteq> []"
  shows "\<exists>y'. future_step i y = Inr y'
           \<and> (\<forall>c\<in>set label_cols. map_of y' (Ahead c i) = Some (ahead i (the (map_of y (Plain c)))))
           \<and> (\<forall>k. (\<forall>c\<in>set label_cols. k \<noteq> Ahead c i) \<longrightarrow> map_of y' k = map_of y k)"
proof -
  from assms obtain t g og where
    t: "map_of y (Plain ''team_id'') = Some t" "t \<noteq> []" and
    g: "map_of y (Plain ''goal'') = Some g" "g \<noteq> []" and
    og: "map_of y (Plain ''owngoal'') = Some og" "og \<noteq> []"
    unfolding label_cols_def by (metis list.set_intros)
  let ?y1 = "AList.update (Ahead ''team_id'' i) (ahead i t) y"
  let ?y2 = "AList.update (Ahead ''goal'' i) (ahead i g) ?y1"
  let ?y3 = "AList.update (Ahead ''owngoal'' i) (ahead i og) ?y2"
  have 1: "future_col i ''team_id'' y = Inr ?y1"
    by (rule future_col_result [OF t])
  have 2: "future_col i ''goal'' ?y1 = Inr ?y2"
    by (rule future_col_result) (use g in \<open>simp_all add: map_of_setcol\<close>)
  have 3: "future_col i ''owngoal'' ?y2 = Inr ?y3"
    by (rule future_col_result) (use og in \<open>simp_all add: map_of_setcol\<close>)
  have "future_step i y = Inr ?y3"
    by (simp add: future_step_def 1 2 3)
  moreover have "\<forall>c\<in>set label_cols. map_of ?y3 (Ahead c i) = Some (ahead i (the (map_of y (Plain c))))"
    using t g og by (simp add: label_cols_def map_of_setcol)
  moreover have "\<forall>k. (\<forall>c\<in>set label_cols. k \<noteq> Ahead c i) \<longrightarrow> map_of ?y3 k = map_of y k"
    by (simp add: label_cols_def map_of_setcol)
  ultimately show ?thesis by blast
qed

lemma add_future_results_result:
  assumes cols: "\<And>c. c \<in> set label_cols \<Longrightarrow> \<exists>xs. map_of y (Plain c) = Some xs \<and> xs \<noteq> []"
  shows "\<exists>y'. add_future_results y H = Inr y'
           \<and> (\<forall>i c. 1 \<le> i \<and> i < H \<and> c \<in> set label_cols
                  \<longrightarrow> map_of y' (Ahead c i) = Some (ahead i (the (map_of y (Plain c)))))
           \<and> (\<forall>c. map_of y' (Plain c) = map_of y (Plain c))"
proof (cases "1 \<le> H")
  case True
  let ?P = "\<lambda>s y'. (\<forall>i c. 1 \<le> i \<and> i < s \<and> c \<in> set label_cols
                  \<longrightarrow> map_of y' (Ahead c i) = Some (ahead i (the (map_of y (Plain c)))))
           \<and> (\<forall>c. map_of y' (Plain c) = map_of y (Plain c))"
  have "\<exists>d'. for_each future_step [1..<H] y = Inr d' \<and> ?P H d'"
  proof (rule for_each_upt [where P = ?P])
    show "?P 1 y" by simp
  next
    fix s d assume s: "1 \<le> s" "s < H" and P: "?P s d"
    have "\<And>c. c \<in> set label_cols \<Longrightarrow> \<exists>xs. map_of d (Plain c) = Some xs \<and> xs \<noteq> []"
      using cols P by simp
    from future_step_result [OF this, of s] obtain d' where d':
      "future_step s d = Inr d'"
      "\<forall>c\<in>set label_cols. map_of d' (Ahead c s) = Some (ahead s (the (map_of d (Plain c))))"
      "\<forall>k. (\<forall>c\<in>set label_cols. k \<noteq> Ahead c s) \<longrightarrow> map_of d' k = map_of d k"
      by blast
    have "?P (Suc s) d'"
    proof (intro conjI allI impI)
      fix i c assume a: "1 \<le> i \<and> i < Suc s \<and> c \<in> set label_cols"
      show "map_of d' (Ahead c i) = Some (ahead i (the (map_of y (Plain c))))"
      proof (cases "i = s")
        case True
        with a d'(2) P show ?thesis by simp
      next
        case False
        with a have "i < s" by simp
        moreover from False have "\<forall>c'\<in>set label_cols. Ahead c i \<noteq> Ahead c' s" by simp
        ultimately show ?thesis using d'(3) P a by simp
      qed
    next
      fix c
      have "\<forall>c'\<in>set label_cols. Plain c \<noteq> Ahead c' s" by simp
      with d'(3) P show "map_of d' (Plain c) = map_of y (Plain c)" by simp
    qed
    with d'(1) show "\<exists>d'. future_step s d = Inr d' \<and> ?P (Suc s) d'" by blast
  next
    show "1 \<le> H" by fact
  qed
  then show ?thesis by (simp add: add_future_results_def)
next
  case False
  then show ?thesis by (simp add: add_future_results_def)
qed

lemma scores_step_either: "scores_step = either_step cell_eq (\<lambda>x y. \<not> cell_eq x y)"
  by (intro ext) (simp add: scores_step_def either_step_def ser_cmp_def ser_eq_def ser_ne_def)

lemma concedes_step_either: "concedes_step = either_step (\<lambda>x y. \<not> cell_eq x y) cell_eq"
  by (intro ext) (simp add: concedes_step_def either_step_def ser_cmp_def ser_eq_def ser_ne_def)

lemma length_near [simp]: "length (near i xs) = length xs"
  by (simp add: near_def)

lemma near_nth: "j < length xs \<Longrightarrow> near i xs ! j = xs ! min (j + i) (length xs - 1)"
  by (simp add: near_def)

lemma ahead_eq_near: "ahead i xs = near i xs"
  by (rule nth_equalityI) (simp_all add: ahead_nth near_nth)

lemma near_map: "near i (map f xs) = map f (near i xs)"
  by (rule nth_equalityI) (auto simp: near_nth min_def)

lemma flags_map_Flag' [simp]: "flags (map Flag bs)"
  by (simp add: flags_iff)

lemma map2_logic_Flag:
  "map2 (cell_logic f) (map Flag as) (map Flag bs) = map Flag (map2 f as bs)"
  by (induction as bs rule: list_induct2') simp_all

lemma map2_cmp_Flag: "map2 (\<lambda>x y. Flag (f x y)) xs ys = map Flag (map2 f xs ys)"
  by (induction xs ys rule: list_induct2') simp_all

lemma logical2_Flag:
  "logical2 f (Inr (na, map Flag as)) (Inr (nb, map Flag bs))
     = Inr (match_name na nb, map Flag (map2 f as bs))"
  by (simp add: logical2_def map2_logic_Flag)

lemma either_step_result:
  assumes t: "map_of y (Plain ''team_id'') = Some T"
    and g: "map_of y (Ahead ''goal'' i) = Some (ahead i (map Flag G))"
    and og: "map_of y (Ahead ''owngoal'' i) = Some (ahead i (map Flag W))"
    and ti: "map_of y (Ahead ''team_id'' i) = Some (ahead i T)"
    and len: "length G = length T" "length W = length T" "length acc = length T"
  shows "either_step f1 f2 y i (Inr (nm, map Flag acc))
         = Inr (None, map Flag (map (\<lambda>j. acc ! j \<or> hit f1 f2 G W T j (min (j + i) (length T - 1)))
                                    [0..<length T]))"
proof -
  let ?c1 = "map2 f1 (near i T) T" and ?c2 = "map2 f2 (near i T) T"
  have c1: "ser_cmp f1 (getser y (Ahead ''team_id'' i)) (getser y (Plain ''team_id''))
            = Inr (None, map Flag ?c1)"
    using t ti by (simp add: ser_cmp_def getser_def match_name_def ahead_eq_near map2_cmp_Flag)
  have c2: "ser_cmp f2 (getser y (Ahead ''team_id'' i)) (getser y (Plain ''team_id''))
            = Inr (None, map Flag ?c2)"
    using t ti by (simp add: ser_cmp_def getser_def match_name_def ahead_eq_near map2_cmp_Flag)
  have gs: "getser y (Ahead ''goal'' i) = Inr (Some (Ahead ''goal'' i), map Flag (near i G))"
    using g by (simp add: getser_def ahead_eq_near near_map)
  have os: "getser y (Ahead ''owngoal'' i) = Inr (Some (Ahead ''owngoal'' i), map Flag (near i W))"
    using og by (simp add: getser_def ahead_eq_near near_map)
  have "either_step f1 f2 y i (Inr (nm, map Flag acc))
        = Inr (None, map Flag (map2 (\<or>) (map2 (\<or>) acc (map2 (\<and>) (near i G) ?c1))
                                          (map2 (\<and>) (near i W) ?c2)))"
    unfolding either_step_def c1 c2 gs os logical2_Flag
    by (simp add: match_name_def)
  moreover have "map2 (\<or>) (map2 (\<or>) acc (map2 (\<and>) (near i G) ?c1)) (map2 (\<and>) (near i W) ?c2)
        = map (\<lambda>j. acc ! j \<or> hit f1 f2 G W T j (min (j + i) (length T - 1))) [0..<length T]"
    using len by (intro nth_equalityI) (auto simp: near_nth hit_def)
  ultimately show ?thesis by simp
qed

lemma fold_either_step:
  assumes t: "map_of y (Plain ''team_id'') = Some T"
    and ahead: "\<And>i. 1 \<le> i \<Longrightarrow> i < H \<Longrightarrow>
        map_of y (Ahead ''goal'' i) = Some (ahead i (map Flag G))
      \<and> map_of y (Ahead ''owngoal'' i) = Some (ahead i (map Flag W))
      \<and> map_of y (Ahead ''team_id'' i) = Some (ahead i T)"
    and len: "length G = length T" "length W = length T" "length first = length T"
    and h: "1 \<le> h" "h \<le> H"
  shows "fold (either_step f1 f2 y) [1..<h] (Inr (Some nm, map Flag first))
         = Inr (if h = 1 then Some nm else None, map Flag (in_horizon f1 f2 G W T first h))"
  using h
proof (induction h)
  case 0
  then show ?case by simp
next
  case (Suc h)
  show ?case
  proof (cases "h = 0")
    case True
    have "in_horizon f1 f2 G W T first 1 = first"
      using len by (intro nth_equalityI) (simp_all add: in_horizon_def)
    with True show ?thesis by simp
  next
    case False
    then have h: "1 \<le> h" "h \<le> H" "h < H" using Suc.prems by simp_all
    have up: "[1..<Suc h] = [1..<h] @ [h]" using h(1) by simp
    have IH: "fold (either_step f1 f2 y) [1..<h] (Inr (Some nm, map Flag first))
         = Inr (if h = 1 then Some nm else None, map Flag (in_horizon f1 f2 G W T first h))"
      using Suc.IH h by simp
    have lw: "length (in_horizon f1 f2 G W T first h) = length T"
      by (simp add: in_horizon_def)
    from ahead [OF h(1,3)] have a:
      "map_of y (Ahead ''goal'' h) = Some (ahead h (map Flag G))"
      "map_of y (Ahead ''owngoal'' h) = Some (ahead h (map Flag W))"
      "map_of y (Ahead ''team_id'' h) = Some (ahead h T)"
      by simp_all
    have "map (\<lambda>j. in_horizon f1 f2 G W T first h ! j \<or> hit f1 f2 G W T j (min (j + h) (length T - 1)))
              [0..<length T]
          = in_horizon f1 f2 G W T first (Suc h)"
      using h(1) by (intro nth_equalityI) (auto simp: in_horizon_def less_Suc_eq)
    then show ?thesis
      unfolding up fold_append comp_apply IH fold_simps
        either_step_result [OF t a len(1,2) lw]
      using False by simp
  qed
qed

lemma shot_column:
  assumes "list_all is_string tn"
  shows "map2 (cell_logic (\<and>)) (map (cell_contains ''shot'') tn)
           (map (\<lambda>c. Flag (cell_eq c (Num res))) rs)
         = map Flag (map2 (shot_with res) tn rs)"
  using assms
proof (induction tn rs rule: list_induct2')
  case (4 t tn r rs)
  then show ?case by (cases t) (simp_all add: shot_with_def)
qed simp_all

lemma flags_contains: "list_all is_string tn \<Longrightarrow> flags (map (cell_contains pat) tn)"
proof (induction tn)
  case (Cons t tn)
  then show ?case by (cases t) (simp_all add: flags_def)
qed (simp add: flags_def)

lemma merged_result:
  assumes "label_table df tn rs ts"
  shows "merged df = Inr [(Plain ''goal'', map Flag (map2 (shot_with 1) tn rs)),
                          (Plain ''owngoal'', map Flag (map2 (shot_with 2) tn rs)),
                          (Plain ''team_id'', ts)]"
  using assms
  by (simp add: label_table_def merged_def goals_def owngoals_def logical2_def str_contains_def
        ser_eq_scalar_def getser_def flags_contains shot_column)

lemma future_table:
  assumes tab: "label_table df tn rs ts" and n: "ts \<noteq> []"
  shows "\<exists>y0 y. merged df = Inr y0 \<and> add_future_results y0 H = Inr y
           \<and> map_of y (Plain ''team_id'') = Some ts
           \<and> map_of y (Plain ''goal'') = Some (map Flag (map2 (shot_with 1) tn rs))
           \<and> map_of y (Plain ''owngoal'') = Some (map Flag (map2 (shot_with 2) tn rs))
           \<and> (\<forall>i. 1 \<le> i \<and> i < H \<longrightarrow>
                 map_of y (Ahead ''goal'' i) = Some (ahead i (map Flag (map2 (shot_with 1) tn rs)))
               \<and> map_of y (Ahead ''owngoal'' i) = Some (ahead i (map Flag (map2 (shot_with 2) tn rs)))
               \<and> map_of y (Ahead ''team_id'' i) = Some (ahead i ts))"
proof -
  let ?G = "map Flag (map2 (shot_with 1) tn rs)" and ?W = "map Flag (map2 (shot_with 2) tn rs)"
  let ?y0 = "[(Plain ''goal'', ?G), (Plain ''owngoal'', ?W), (Plain ''team_id'', ts)]"
  have m: "merged df = Inr ?y0" by (rule merged_result [OF tab])
  have len: "length tn = length ts" "length rs = length ts"
    using tab by (simp_all add: label_table_def)
  have cols: "\<exists>xs. map_of ?y0 (Plain c) = Some xs \<and> xs \<noteq> []" if "c \<in> set label_cols" for c
    using that n len by (auto simp: label_cols_def)
  from add_future_results_result [of ?y0 H, OF cols] obtain y where y:
    "add_future_results ?y0 H = Inr y"
    "\<forall>i c. 1 \<le> i \<and> i < H \<and> c \<in> set label_cols
        \<longrightarrow> map_of y (Ahead c i) = Some (ahead i (the (map_of ?y0 (Plain c))))"
    "\<forall>c. map_of y (Plain c) = map_of ?y0 (Plain c)"
    by blast
  have "map_of y (Ahead ''goal'' i) = Some (ahead i ?G)
      \<and> map_of y (Ahead ''owngoal'' i) = Some (ahead i ?W)
      \<and> map_of y (Ahead ''team_id'' i) = Some (ahead i ts)" if "1 \<le> i \<and> i < H" for i
    using y(2) that by (simp add: label_cols_def)
  with m y(1,3) show ?thesis by simp
qed

lemma label_scores_values:
  assumes tab: "label_table df tn rs ts" and n: "ts \<noteq> []" and H: "1 \<le> H"
  shows "label_scores df H
         = DataFrame (Inr (if H = 1 then Some (Plain ''goal'') else None,
             map Flag (in_horizon cell_eq (\<lambda>x y. \<not> cell_eq x y)
                         (map2 (shot_with 1) tn rs) (map2 (shot_with 2) tn rs) ts
                         (map2 (shot_with 1) tn rs) H))) ''scores''"
proof -
  let ?G = "map2 (shot_with 1) tn rs" and ?W = "map2 (shot_with 2) tn rs"
  from future_table [OF tab n, of H] obtain y0 y where y:
    "merged df = Inr y0" "add_future_results y0 H = Inr y"
    "map_of y (Plain ''team_id'') = Some ts"
    "map_of y (Plain ''goal'') = Some (map Flag ?G)"
    "\<And>i. 1 \<le> i \<Longrightarrow> i < H \<Longrightarrow>
        map_of y (Ahead ''goal'' i) = Some (ahead i (map Flag ?G))
      \<and> map_of y (Ahead ''owngoal'' i) = Some (ahead i (map Flag ?W))
      \<and> map_of y (Ahead ''team_id'' i) = Some (ahead i ts)"
    by blast
  have len: "length ?G = length ts" "length ?W = length ts"
    using tab by (simp_all add: label_table_def)
  have "fold (scores_step y) [1..<H] (getser y (Plain ''goal''))
        = Inr (if H = 1 then Some (Plain ''goal'') else None,
               map Flag (in_horizon cell_eq (\<lambda>x y. \<not> cell_eq x y) ?G ?W ts ?G H))"
    unfolding scores_step_either
    using fold_either_step [OF y(3) y(5) len len(1) H order_refl] y(4)
    by (simp add: getser_def)
  with y(1,2) show ?thesis by (simp add: label_scores_def)
qed

lemma label_concedes_values:
  assumes tab: "label_table df tn rs ts" and n: "ts \<noteq> []" and H: "1 \<le> H"
  shows "label_concedes df H
         = DataFrame (Inr (if H = 1 then Some (Plain ''owngoal'') else None,
             map Flag (in_horizon (\<lambda>x y. \<not> cell_eq x y) cell_eq
                         (map2 (shot_with 1) tn rs) (map2 (shot_with 2) tn rs) ts
                         (map2 (shot_with 2) tn rs) H))) ''concedes''"
proof -
  let ?G = "map2 (shot_with 1) tn rs" and ?W = "map2 (shot_with 2) tn rs"
  from future_table [OF tab n, of H] obtain y0 y where y:
    "merged df = Inr y0" "add_future_results y0 H = Inr y"
    "map_of y (Plain ''team_id'') = Some ts"
    "map_of y (Plain ''owngoal'') = Some (map Flag ?W)"
    "\<And>i. 1 \<le> i \<Longrightarrow> i < H \<Longrightarrow>
        map_of y (Ahead ''goal'' i) = Some (ahead i (map Flag ?G))
      \<and> map_of y (Ahead ''owngoal'' i) = Some (ahead i (map Flag ?W))
      \<and> map_of y (Ahead ''team_id'' i) = Some (ahead i ts)"
    by blast
  have len: "length ?G = length ts" "length ?W = length ts"
    using tab by (simp_all add: label_table_def)
  have "fold (concedes_step y) [1..<H] (getser y (Plain ''owngoal''))
        = Inr (if H = 1 then Some (Plain ''owngoal'') else None,
               map Flag (in_horizon (\<lambda>x y. \<not> cell_eq x y) cell_eq ?G ?W ts ?W H))"
    unfolding concedes_step_either
    using fold_either_step [OF y(3) y(5) len len(2) H order_refl] y(4)
    by (simp add: getser_def)
  with y(1,2) show ?thesis by (simp add: label_concedes_def)
qed

lemma cell_eq_number: "is_number x \<Longrightarrow> is_number y \<Longrightarrow> cell_eq x y \<longleftrightarrow> x = y"
  by (cases x; cases y) simp_all

lemma in_horizon_nth:
  assumes j: "j < length T" and H: "1 \<le> H"
    and start: "first ! j = hit f1 f2 G W T j j"
  shows "in_horizon f1 f2 G W T first H ! j
         \<longleftrightarrow> (\<exists>k\<in>{j..<min (j + H) (length T)}. hit f1 f2 G W T j k)"
proof -
  have "in_horizon f1 f2 G W T first H ! j
        \<longleftrightarrow> hit f1 f2 G W T j j \<or> (\<exists>i\<in>{1..<H}. hit f1 f2 G W T j (min (j + i) (length T - 1)))"
    using j start by (simp add: in_horizon_def)
  also have "\<dots> \<longleftrightarrow> (\<exists>k\<in>{j..<min (j + H) (length T)}. hit f1 f2 G W T j k)"
  proof
    assume "hit f1 f2 G W T j j \<or> (\<exists>i\<in>{1..<H}. hit f1 f2 G W T j (min (j + i) (length T - 1)))"
    then show "\<exists>k\<in>{j..<min (j + H) (length T)}. hit f1 f2 G W T j k"
    proof
      assume "hit f1 f2 G W T j j"
      moreover have "j \<in> {j..<min (j + H) (length T)}" using j H by simp
      ultimately show ?thesis by blast
    next
      assume "\<exists>i\<in>{1..<H}. hit f1 f2 G W T j (min (j + i) (length T - 1))"
      then obtain i where i: "i \<in> {1..<H}" "hit f1 f2 G W T j (min (j + i) (length T - 1))"
        by blast
      have "min (j + i) (length T - 1) \<in> {j..<min (j + H) (length T)}"
        using i(1) j by (auto simp: min_def)
      with i(2) show ?thesis by blast
    qed
  next
    assume "\<exists>k\<in>{j..<min (j + H) (length T)}. hit f1 f2 G W T j k"
    then obtain k where k: "j \<le> k" "k < j + H" "k < length T" "hit f1 f2 G W T j k"
      by auto
    show "hit f1 f2 G W T j j \<or> (\<exists>i\<in>{1..<H}. hit f1 f2 G W T j (min (j + i) (length T - 1)))"
    proof (cases "k = j")
      case True
      with k(4) show ?thesis by simp
    next
      case False
      with k have "k - j \<in> {1..<H}" "min (j + (k - j)) (length T - 1) = k"
        by (auto simp: min_def)
      with k(4) show ?thesis by metis
    qed
  qed
  finally show ?thesis .
qed

lemma DataFrame_unnamed [simp]: "DataFrame (Inr (None, xs)) c = Inr [(Plain c, xs)]"
  by (simp add: DataFrame_def)

lemma DataFrame_named:
  "DataFrame (Inr (Some nm, xs)) c = Inr [(Plain c, if nm = Plain c then xs else [])]"
  by (simp add: DataFrame_def)

lemma label_tableD:
  assumes "label_table df tn rs ts" and "k < length ts"
  shows "map2 (shot_with res) tn rs ! k = shot_with res (tn ! k) (rs ! k)"
    and "is_number (ts ! k)"
  using assms by (simp_all add: label_table_def list_all_length)

lemma hit_scores:
  assumes "label_table df tn rs ts" and "j < length ts" and "k < length ts"
  shows "hit cell_eq (\<lambda>x y. \<not> cell_eq x y) (map2 (shot_with 1) tn rs) (map2 (shot_with 2) tn rs) ts j k
         \<longleftrightarrow> (shot_with 1 (tn ! k) (rs ! k) \<and> ts ! k = ts ! j)
           \<or> (shot_with 2 (tn ! k) (rs ! k) \<and> ts ! k \<noteq> ts ! j)"
  using label_tableD [OF assms(1,3)] label_tableD(2) [OF assms(1,2)]
  by (simp add: hit_def cell_eq_number)

lemma hit_concedes:
  assumes "label_table df tn rs ts" and "j < length ts" and "k < length ts"
  shows "hit (\<lambda>x y. \<not> cell_eq x y) cell_eq (map2 (shot_with 1) tn rs) (map2 (shot_with 2) tn rs) ts j k
         \<longleftrightarrow> (shot_with 2 (tn ! k) (rs ! k) \<and> ts ! k = ts ! j)
           \<or> (shot_with 1 (tn ! k) (rs ! k) \<and> ts ! k \<noteq> ts ! j)"
  using label_tableD [OF assms(1,3)] label_tableD(2) [OF assms(1,2)]
  by (auto simp add: hit_def cell_eq_number)

lemma label_scores_from_two:
  assumes tab: "label_table df tn rs ts" and H: "2 \<le> H" and j: "j < length ts"
  shows "cell_at (label_scores df H) (Plain ''scores'') j
         = Some (Flag (\<exists>k\<in>{j..<min (j + H) (length ts)}.
                   (shot_with 1 (tn ! k) (rs ! k) \<and> ts ! k = ts ! j)
                 \<or> (shot_with 2 (tn ! k) (rs ! k) \<and> ts ! k \<noteq> ts ! j)))"
proof -
  let ?G = "map2 (shot_with 1) tn rs" and ?W = "map2 (shot_with 2) tn rs"
  let ?v = "in_horizon cell_eq (\<lambda>x y. \<not> cell_eq x y) ?G ?W ts ?G H"
  have n: "ts \<noteq> []" and H1: "1 \<le> H" "H \<noteq> 1" using j H by auto
  have "label_scores df H = Inr [(Plain ''scores'', map Flag ?v)]"
    using label_scores_values [OF tab n H1(1)] H1(2) by simp
  moreover have "length ?v = length ts" by (simp add: in_horizon_def)
  moreover have "?v ! j \<longleftrightarrow> (\<exists>k\<in>{j..<min (j + H) (length ts)}.
                   (shot_with 1 (tn ! k) (rs ! k) \<and> ts ! k = ts ! j)
                 \<or> (shot_with 2 (tn ! k) (rs ! k) \<and> ts ! k \<noteq> ts ! j))"
  proof -
    have "?G ! j = hit cell_eq (\<lambda>x y. \<not> cell_eq x y) ?G ?W ts j j"
      using hit_scores [OF tab j j] label_tableD(1) [OF tab j] by simp
    from in_horizon_nth [OF j H1(1) this]
    have "?v ! j \<longleftrightarrow> (\<exists>k\<in>{j..<min (j + H) (length ts)}.
            hit cell_eq (\<lambda>x y. \<not> cell_eq x y) ?G ?W ts j k)" .
    also have "\<dots> \<longleftrightarrow> (\<exists>k\<in>{j..<min (j + H) (length ts)}.
                   (shot_with 1 (tn ! k) (rs ! k) \<and> ts ! k = ts ! j)
                 \<or> (shot_with 2 (tn ! k) (rs ! k) \<and> ts ! k \<noteq> ts ! j))"
      by (intro bex_cong refl hit_scores [OF tab j]) simp
    finally show ?thesis .
  qed
  ultimately show ?thesis using j by (simp add: cell_at_def)
qed

lemma label_concedes_from_two:
  assumes tab: "label_table df tn rs ts" and H: "2 \<le> H" and j: "j < length ts"
  shows "cell_at (label_concedes df H) (Plain ''concedes'') j
         = Some (Flag (\<exists>k\<in>{j..<min (j + H) (length ts)}.
                   (shot_with 2 (tn ! k) (rs ! k) \<and> ts ! k = ts ! j)
                 \<or> (shot_with 1 (tn ! k) (rs ! k) \<and> ts ! k \<noteq> ts ! j)))"
proof -
  let ?G = "map2 (shot_with 1) tn rs" and ?W = "map2 (shot_with 2) tn rs"
  let ?v = "in_horizon (\<lambda>x y. \<not> cell_eq x y) cell_eq ?G ?W ts ?W H"
  have n: "ts \<noteq> []" and H1: "1 \<le> H" "H \<noteq> 1" using j H by auto
  have "label_concedes df H = Inr [(Plain ''concedes'', map Flag ?v)]"
    using label_concedes_values [OF tab n H1(1)] H1(2) by simp
  moreover have "length ?v = length ts" by (simp add: in_horizon_def)
  moreover have "?v ! j \<longleftrightarrow> (\<exists>k\<in>{j..<min (j + H) (length ts)}.
                   (shot_with 2 (tn ! k) (rs ! k) \<and> ts ! k = ts ! j)
                 \<or> (shot_with 1 (tn ! k) (rs ! k) \<and> ts ! k \<noteq> ts ! j))"
  proof -
    have "?W ! j = hit (\<lambda>x y. \<not> cell_eq x y) cell_eq ?G ?W ts j j"
      using hit_concedes [OF tab j j] label_tableD(1) [OF tab j] by simp
    from in_horizon_nth [OF j H1(1) this]
    have "?v ! j \<longleftrightarrow> (\<exists>k\<in>{j..<min (j + H) (length ts)}.
            hit (\<lambda>x y. \<not> cell_eq x y) cell_eq ?G ?W ts j k)" .
    also have "\<dots> \<longleftrightarrow> (\<exists>k\<in>{j..<min (j + H) (length ts)}.
                   (shot_with 2 (tn ! k) (rs ! k) \<and> ts ! k = ts ! j)
                 \<or> (shot_with 1 (tn ! k) (rs ! k) \<and> ts ! k \<noteq> ts ! j))"
      by (intro bex_cong refl hit_concedes [OF tab j]) simp
    finally show ?thesis .
  qed
  ultimately show ?thesis using j by (simp add: cell_at_def)
qed

lemma final_action_labels_from_two:
  assumes tab: "label_table df tn rs ts" and H: "2 \<le> H" and n: "ts \<noteq> []"
  shows "cell_at (label_scores df H) (Plain ''scores'') (length ts - 1)
           = Some (Flag (shot_with 1 (last tn) (last rs)))"
    and "cell_at (label_concedes df H) (Plain ''concedes'') (length ts - 1)
           = Some (Flag (shot_with 2 (last tn) (last rs)))"
proof -
  have j: "length ts - 1 < length ts" using n by simp
  have len: "length tn = length ts" "length rs = length ts"
    using tab by (simp_all add: label_table_def)
  have set: "{length ts - 1..<min (length ts - 1 + H) (length ts)} = {length ts - 1}"
    using n H by (auto simp: min_def)
  have "tn \<noteq> []" "rs \<noteq> []" using n len by auto
  then have l: "tn ! (length ts - 1) = last tn" "rs ! (length ts - 1) = last rs"
    using len by (simp_all add: last_conv_nth)
  show "cell_at (label_scores df H) (Plain ''scores'') (length ts - 1)
           = Some (Flag (shot_with 1 (last tn) (last rs)))"
    unfolding label_scores_from_two [OF tab H j] set using l by simp
  show "cell_at (label_concedes df H) (Plain ''concedes'') (length ts - 1)
           = Some (Flag (shot_with 2 (last tn) (last rs)))"
    unfolding label_concedes_from_two [OF tab H j] set using l by simp
qed

lemma labels_horizon_one:
  assumes tab: "label_table df tn rs ts" and n: "ts \<noteq> []"
  shows "label_scores df 1 = Inr [(Plain ''scores'', [])]"
    and "label_concedes df 1 = Inr [(Plain ''concedes'', [])]"
  using label_scores_values [OF tab n, of 1] label_concedes_values [OF tab n, of 1]
  by (simp_all add: DataFrame_named)

lemmas label_defs = label_scores_def label_concedes_def merged_def goals_def owngoals_def
  logical2_def str_contains_def ser_eq_scalar_def getser_def getcol_def match_name_def
  add_future_results_def future_step_def future_col_def fill_tail_def shift_def
  scores_step_def concedes_step_def ser_eq_def ser_ne_def DataFrame_def flags_def

section \<open>Claims about the elapsed match time\<close>

text \<open>
  C7. For every action, the elapsed-match-time feature equals the action's in-period
  elapsed seconds plus a period offset of 0 seconds for period 1, 45*60 seconds for
  period 2, (45+15)*60 seconds for period 3 and (45+15+15)*60 seconds for period 4.
  The table is any table whose \<^verbatim>\<open>time_seconds\<close> and \<^verbatim>\<open>period_id\<close> columns are numeric;
  the action is row \<open>i\<close>, with \<open>t\<close> elapsed seconds in period \<open>p\<close>.
\<close>

theorem time_played_period_offsets:
  assumes "map_of df (Plain ''time_seconds'') = Some ts"
    and "map_of df (Plain ''period_id'') = Some ps"
    and "numeric ts" and "numeric ps"
    and "length ts = length ps" and "i < length ps"
    and "ts ! i = Num t" and "ps ! i = Num p" and "p \<in> {1, 2, 3, 4}"
  shows "cell_at (add_time_played df) (Plain ''time_played'') i
           = Some (Num (t + (if p = 1 then 0 else if p = 2 then 45 * 60
                             else if p = 3 then (45 + 15) * 60 else (45 + 15 + 15) * 60)))"
proof -
  have "period_offset (Num p) = (if p = 1 then 0 else if p = 2 then 45 * 60
          else if p = 3 then (45 + 15) * 60 else (45 + 15 + 15) * 60)"
    using assms(9) by (auto simp: period_offset_def)
  with cell_at_time_played [OF assms(1-7)] assms(8) show ?thesis by simp
qed

theorem time_played_period_offsets_witness:
  "cell_at (add_time_played [(Plain ''period_id'', [Num 1, Num 3]),
                              (Plain ''time_seconds'', [Num 12, Num 30])])
           (Plain ''time_played'') 1 = Some (Num 3630)"
  using time_played_period_offsets
    [of "[(Plain ''period_id'', [Num 1, Num 3]), (Plain ''time_seconds'', [Num 12, Num 30])]"
        "[Num 12, Num 30]" "[Num 1, Num 3]" 1 30 3]
  by (simp add: numeric_def)

text \<open>
  C8 as stated: in a match with actions in periods 1 and 2, an action of period 2 at
  second 0 has a strictly greater elapsed match time than every action of period 1.
  It fails for an action of the first half played in stoppage time: with a first-half
  action at 46 minutes (2760 seconds), the action that opens the second half gets
  2700 seconds, which is less.
\<close>

theorem time_played_stoppage_counterexample:
  "cell_at (add_time_played [(Plain ''period_id'', [Num 1, Num 2]),
                              (Plain ''time_seconds'', [Num 2760, Num 0])])
           (Plain ''time_played'') 0 = Some (Num 2760)
   \<and> cell_at (add_time_played [(Plain ''period_id'', [Num 1, Num 2]),
                              (Plain ''time_seconds'', [Num 2760, Num 0])])
           (Plain ''time_played'') 1 = Some (Num 2700)
   \<and> \<not> (2760 :: real) < 2700"
  by (simp add: add_time_played_def numeric_def flags_def cell_at_def)

text \<open>
  C8, amended: in a match with actions in periods 1 and 2, an action of period 2 at
  second 0 has a strictly greater elapsed match time than every action of period 1
  whose in-period elapsed seconds are below 45*60. Row \<open>j\<close> is the action of period 2,
  row \<open>i\<close> any action of period 1, at \<open>t\<close> seconds.
\<close>

theorem time_played_second_half_later:
  assumes "map_of df (Plain ''time_seconds'') = Some ts"
    and "map_of df (Plain ''period_id'') = Some ps"
    and "numeric ts" and "numeric ps"
    and "length ts = length ps" and "i < length ps" and "j < length ps"
    and "ps ! i = Num 1" and "ts ! i = Num t" and "t < 45 * 60"
    and "ps ! j = Num 2" and "ts ! j = Num 0"
  shows "\<exists>a b. cell_at (add_time_played df) (Plain ''time_played'') i = Some (Num a)
           \<and> cell_at (add_time_played df) (Plain ''time_played'') j = Some (Num b)
           \<and> a < b"
proof -
  have i: "cell_at (add_time_played df) (Plain ''time_played'') i = Some (Num t)"
    using cell_at_time_played [OF assms(1-6) assms(9)] assms(8)
    by (simp add: period_offset_def)
  have j: "cell_at (add_time_played df) (Plain ''time_played'') j = Some (Num (45 * 60))"
    using cell_at_time_played [OF assms(1-5) assms(7) assms(12)] assms(11)
    by (simp add: period_offset_def)
  from i j assms(10) show ?thesis by simp
qed

theorem time_played_second_half_later_witness:
  "\<exists>a b. cell_at (add_time_played [(Plain ''period_id'', [Num 1, Num 2]),
                                    (Plain ''time_seconds'', [Num 2600, Num 0])])
             (Plain ''time_played'') 0 = Some (Num a)
       \<and> cell_at (add_time_played [(Plain ''period_id'', [Num 1, Num 2]),
                                    (Plain ''time_seconds'', [Num 2600, Num 0])])
             (Plain ''time_played'') 1 = Some (Num b)
       \<and> a < b"
  using time_played_second_half_later
    [of "[(Plain ''period_id'', [Num 1, Num 2]), (Plain ''time_seconds'', [Num 2600, Num 0])]"
        "[Num 2600, Num 0]" "[Num 1, Num 2]" 0 1 2600]
  by (simp add: numeric_def)

section \<open>Claims about the windows\<close>

text \<open>
  C5. For every single-match ordered action table and window size K >= 1, the windowing
  output has one row per action; for every action index \<open>i\<close>, the slot-0 columns equal the
  action's own attributes unchanged, and for every slot \<open>s\<close> with 1 <= s <= K-1 the slot-s
  columns equal the attributes of the action at index \<open>i-s\<close> when \<open>i-s >= 0\<close>, and are the
  missing value for every attribute when \<open>i-s < 0\<close>. The table has \<open>n\<close> rows and the columns
  \<open>feats\<close>; \<open>c\<close> is any of them and \<open>s < K\<close> any slot (for \<open>s = 0\<close> the right-hand side is
  the action's own cell). Beyond the \<open>n\<close> rows the output has no cell.
\<close>

theorem window_slots:
  assumes "has_columns df feats n" and "c \<in> set feats" and "s < K"
  shows "cell_at (create_delayed_features df feats K) (Delayed c s) i
         = (if i < n then (if s \<le> i then cell_at (Inr df) (Plain c) (i - s) else Some NaN)
            else None)"
proof -
  from has_columnsD [OF assms(1,2)] obtain xs where
    xs: "map_of df (Plain c) = Some xs" "length xs = n" by blast
  have "\<And>c. c \<in> set feats \<Longrightarrow> map_of df (Plain c) \<noteq> None"
    using has_columnsD [OF assms(1)] by fastforce
  from window_column [OF this assms(2,3)] xs(1) obtain out where
    "create_delayed_features df feats K = Inr out"
    "map_of out (Delayed c s) = Some (shift (int s) xs)" by auto
  then show ?thesis using xs by (auto simp add: cell_at_def shift_nth)
qed

theorem window_slots_witness:
  "cell_at (create_delayed_features
              [(Plain ''team_id'', [Num 7, Num 8, Num 7]), (Plain ''start_x'', [Num 10, Num 20, Num 30])]
              [''team_id'', ''start_x''] 3) (Delayed ''start_x'' 1) 2 = Some (Num 20)
   \<and> cell_at (create_delayed_features
              [(Plain ''team_id'', [Num 7, Num 8, Num 7]), (Plain ''start_x'', [Num 10, Num 20, Num 30])]
              [''team_id'', ''start_x''] 3) (Delayed ''start_x'' 2) 1 = Some NaN"
  using window_slots [of "[(Plain ''team_id'', [Num 7, Num 8, Num 7]), (Plain ''start_x'', [Num 10, Num 20, Num 30])]"
                         "[''team_id'', ''start_x'']" 3 "''start_x''" 1 3 2]
        window_slots [of "[(Plain ''team_id'', [Num 7, Num 8, Num 7]), (Plain ''start_x'', [Num 10, Num 20, Num 30])]"
                         "[''team_id'', ''start_x'']" 3 "''start_x''" 2 3 1]
  by (simp add: has_columns_def cell_at_def)

text \<open>
  C10. For every action index \<open>i\<close> and every slot \<open>s\<close> with 1 <= s <= K-1 such that
  \<open>i-s < 0\<close> (the slot is missing), the indicator \<^verbatim>\<open>team-s\<close> computed for that slot is
  False: the missing slot counts as one of the other team, and the row mask
  \<^verbatim>\<open>~team-s\<close> of \<^verbatim>\<open>invert_coordinates\<close> selects it.
\<close>

theorem missing_slot_counts_as_other_team:
  assumes "has_columns df feats n" and "''team_id'' \<in> set feats"
    and "1 \<le> s" and "s < K" and "i < s" and "i < n"
  shows "cell_at (and_then (create_delayed_features df feats K) (\<lambda>w. add_same_team w K))
           (Delayed ''team'' s) i = Some (Flag False)
       \<and> map_option cell_not
           (cell_at (and_then (create_delayed_features df feats K) (\<lambda>w. add_same_team w K))
              (Delayed ''team'' s) i) = Some (Flag True)"
proof -
  from has_columnsD [OF assms(1,2)] obtain tid where
    tid: "map_of df (Plain ''team_id'') = Some tid" "length tid = n" by blast
  have ex: "\<And>c. c \<in> set feats \<Longrightarrow> map_of df (Plain c) \<noteq> None"
    using has_columnsD [OF assms(1)] by fastforce
  have K: "0 < K" using assms(4) by simp
  from window_column [OF ex assms(2) K] tid(1) obtain w where
    w: "create_delayed_features df feats K = Inr w"
       "map_of w (Delayed ''team_id'' 0) = Some tid"
    by auto
  have wj: "map_of w (Delayed ''team_id'' j) = Some (shift (int j) tid)" if "j < K" for j
    using window_column [OF ex assms(2) that] tid(1) w(1) by auto
  have "\<And>j. 1 \<le> j \<Longrightarrow> j < K \<Longrightarrow> map_of w (Delayed ''team_id'' j) \<noteq> None"
    using wj by simp
  from add_same_team_result [OF w(2) this] obtain d where d:
    "add_same_team w K = Inr d"
    "\<forall>j. 1 \<le> j \<and> j < K \<longrightarrow> map_of d (Delayed ''team'' j)
          = Some (same_col tid (the (map_of w (Delayed ''team_id'' j))))"
    by blast
  have "map_of d (Delayed ''team'' s) = Some (same_col tid (shift (int s) tid))"
    using d(2) assms(3,4) wj by simp
  moreover have "same_col tid (shift (int s) tid) ! i = Flag False"
    using assms(5,6) tid(2) by (simp add: same_col_nth shift_nth)
  ultimately show ?thesis
    using w(1) d(1) assms(6) tid(2) by (simp add: cell_at_def)
qed

theorem missing_slot_counts_as_other_team_witness:
  "cell_at (and_then (create_delayed_features
              [(Plain ''team_id'', [Num 7, Num 8, Num 7])] [''team_id''] 3) (\<lambda>w. add_same_team w 3))
           (Delayed ''team'' 2) 1 = Some (Flag False)"
  using missing_slot_counts_as_other_team
    [of "[(Plain ''team_id'', [Num 7, Num 8, Num 7])]" "[''team_id'']" 3 2 3 1]
  by (simp add: has_columns_def)

section \<open>Claims about the coordinate normalisation\<close>

text \<open>
  C3. After coordinate normalisation of a window, every present slot \<open>s\<close> with
  1 <= s <= K-1 whose team differs from the team of slot 0 has each start and end
  coordinate mirrored, \<open>x' = PITCH_LENGTH - x\<close> and \<open>y' = PITCH_WIDTH - y\<close>; every present
  slot with the team of slot 0 keeps its coordinates; the coordinates of slot 0 never
  change. The table is any table of windows with \<open>K\<close> slots and \<open>n\<close> rows, and \<open>c\<close> is one
  of the four coordinate columns; \<open>extent c\<close> is the pitch length for an x column and the
  pitch width for a y column. The first conjunct is about slot 0, for every row and every
  \<open>K\<close> and whatever the other slots hold; the second is about a slot \<open>s\<close> of row \<open>i\<close> that
  is present, with team \<open>b\<close> and coordinate \<open>x\<close>, next to team \<open>a\<close> in slot 0.
\<close>

theorem other_team_slots_are_mirrored:
  assumes "window_table df K n" and "c \<in> set coords"
  shows "cell_at (normalize_window df K) (Delayed c 0) i = cell_at (Inr df) (Delayed c 0) i
       \<and> (\<forall>s a b x. 1 \<le> s \<and> s < K \<and> i < n
             \<and> cell_at (Inr df) (Delayed ''team_id'' 0) i = Some (Num a)
             \<and> cell_at (Inr df) (Delayed ''team_id'' s) i = Some (Num b)
             \<and> cell_at (Inr df) (Delayed c s) i = Some (Num x)
           \<longrightarrow> cell_at (normalize_window df K) (Delayed c s) i
                 = Some (Num (if a = b then x else extent c - x)))"
proof (cases "K = 0")
  case True
  then show ?thesis
    by (simp add: normalize_window_def add_same_team_def invert_coordinates_def)
next
  case False
  then have K: "0 < K" by simp
  from window_tableD(1) [OF assms(1) K] obtain t0 where
    t0: "map_of df (Delayed ''team_id'' 0) = Some t0" "length t0 = n" by blast
  have ts: "\<And>j. 1 \<le> j \<Longrightarrow> j < K
               \<Longrightarrow> \<exists>ts. map_of df (Delayed ''team_id'' j) = Some ts \<and> length ts = n"
    using window_tableD(1) [OF assms(1)] by blast
  have cols: "\<And>j c. 1 \<le> j \<Longrightarrow> j < K \<Longrightarrow> c \<in> set coords
                 \<Longrightarrow> \<exists>xs. map_of df (Delayed c j) = Some xs \<and> numeric xs \<and> length xs = n"
    using window_tableD(2) [OF assms(1)] by blast
  have cols': "\<And>j c. 1 \<le> j \<Longrightarrow> j < K \<Longrightarrow> c \<in> set coords
                 \<Longrightarrow> \<exists>xs. map_of df (Delayed c j) = Some xs \<and> numeric xs"
    using cols by fastforce
  have ts': "\<And>j. 1 \<le> j \<Longrightarrow> j < K \<Longrightarrow> map_of df (Delayed ''team_id'' j) \<noteq> None"
    using ts by fastforce
  from normalize_window_result [OF t0(1) ts' cols'] assms(2) obtain d where
    "normalize_window df K = Inr d" "map_of d (Delayed c 0) = map_of df (Delayed c 0)"
    by blast
  then have slot0: "cell_at (normalize_window df K) (Delayed c 0) i
                    = cell_at (Inr df) (Delayed c 0) i"
    by (simp add: cell_at_def)
  have "cell_at (normalize_window df K) (Delayed c s) i
          = Some (Num (if a = b then x else extent c - x))"
    if s: "1 \<le> s" "s < K" and i: "i < n"
      and a: "cell_at (Inr df) (Delayed ''team_id'' 0) i = Some (Num a)"
      and b: "cell_at (Inr df) (Delayed ''team_id'' s) i = Some (Num b)"
      and x: "cell_at (Inr df) (Delayed c s) i = Some (Num x)" for s a b x
  proof -
    from ts [OF s] obtain tm where
      tm: "map_of df (Delayed ''team_id'' s) = Some tm" "length tm = n" by blast
    from cols [OF s assms(2)] obtain xs where
      xs: "map_of df (Delayed c s) = Some xs" "length xs = n" by blast
    have vals: "t0 ! i = Num a" "tm ! i = Num b" "xs ! i = Num x"
      using i a b x t0 tm xs by (simp_all add: cell_at_def)
    show ?thesis
      using normalize_window_cell [OF t0 ts cols s i assms(2)] tm xs vals by simp
  qed
  with slot0 show ?thesis by blast
qed

theorem other_team_slots_are_mirrored_witness:
  "cell_at (normalize_window example_window 2) (Delayed ''start_x'' 0) 0 = Some (Num 50)
   \<and> cell_at (normalize_window example_window 2) (Delayed ''start_x'' 0) 1 = Some (Num 60)
   \<and> cell_at (normalize_window example_window 2) (Delayed ''start_x'' 1) 1 = Some (Num 55)"
proof -
  have c: "''start_x'' \<in> set coords" by (simp add: coords_def)
  note row0 = other_team_slots_are_mirrored [OF window_table_example c, of 0]
  note row1 = other_team_slots_are_mirrored [OF window_table_example c, of 1]
  from row0 [THEN conjunct1]
  have "cell_at (normalize_window example_window 2) (Delayed ''start_x'' 0) 0 = Some (Num 50)"
    by (simp add: cell_at_def example_window_def)
  moreover from row1 [THEN conjunct1]
  have "cell_at (normalize_window example_window 2) (Delayed ''start_x'' 0) 1 = Some (Num 60)"
    by (simp add: cell_at_def example_window_def)
  moreover from row1 [THEN conjunct2, rule_format, of 1 8 7 50]
  have "cell_at (normalize_window example_window 2) (Delayed ''start_x'' 1) 1 = Some (Num 55)"
    by (simp add: cell_at_def example_window_def extent_def PITCH_LENGTH_def)
  ultimately show ?thesis by simp
qed

text \<open>
  C9. Coordinate normalisation preserves missingness: a coordinate of a slot \<open>s >= 1\<close>
  that is the missing value before normalisation is still the missing value after it.
\<close>

theorem missing_coordinates_stay_missing:
  assumes "window_table df K n" and "1 \<le> s" and "s < K" and "i < n"
    and "c \<in> set coords"
    and "cell_at (Inr df) (Delayed c s) i = Some NaN"
  shows "cell_at (normalize_window df K) (Delayed c s) i = Some NaN"
proof -
  have K: "0 < K" using assms(3) by simp
  from window_tableD(1) [OF assms(1) K] obtain t0 where
    t0: "map_of df (Delayed ''team_id'' 0) = Some t0" "length t0 = n" by blast
  have ts: "\<And>j. 1 \<le> j \<Longrightarrow> j < K
               \<Longrightarrow> \<exists>ts. map_of df (Delayed ''team_id'' j) = Some ts \<and> length ts = n"
    using window_tableD(1) [OF assms(1)] by blast
  have cols: "\<And>j c. 1 \<le> j \<Longrightarrow> j < K \<Longrightarrow> c \<in> set coords
                 \<Longrightarrow> \<exists>xs. map_of df (Delayed c j) = Some xs \<and> numeric xs \<and> length xs = n"
    using window_tableD(2) [OF assms(1)] by blast
  from cols [OF assms(2,3,5)] obtain xs where
    xs: "map_of df (Delayed c s) = Some xs" "length xs = n" by blast
  have "xs ! i = NaN"
    using assms(4,6) xs by (simp add: cell_at_def)
  then show ?thesis
    using normalize_window_cell [OF t0 ts cols assms(2,3,4,5)] xs by simp
qed

theorem missing_coordinates_stay_missing_witness:
  "cell_at (normalize_window example_window 2) (Delayed ''end_y'' 1) 0 = Some NaN"
  using missing_coordinates_stay_missing [of example_window 2 2 1 0 "''end_y''"]
  by (simp add: window_table_example coords_def)
     (simp add: cell_at_def example_window_def)

section \<open>Claims about the angle to the goal\<close>

text \<open>
  C4 as stated: for every window slot and side the angle-to-goal feature is a finite
  number, the quotient or 0, never NaN. It fails in two ways. For a slot that is missing:
  the first action of a match has no preceding action, the coordinates of its slot 1
  are NaN, \<^verbatim>\<open>NaN != 0\<close> holds, and the quotient \<^verbatim>\<open>NaN / NaN\<close> is NaN (the
  table is \<open>example_window\<close> after normalisation, as \<^verbatim>\<open>create_features_match\<close> passes
  it on, with float64 columns). And for an x column of dtype int64, here \<^verbatim>\<open>end_x-0\<close>
  of \<open>example_window\<close>: the buffer \<^verbatim>\<open>np.zeros_like(diff_x)\<close> is int64 then, and for the
  end of the first action, where the quotient is 45 / 6, the library stores 7, or it
  raises and no feature is computed.
\<close>

theorem angle_of_missing_slot_counterexample:
  "cell_at (and_then (normalize_window example_window 2)
              (\<lambda>w. add_location_features all_float64 Refuses w 2))
     (Delayed ''start_angle_to_goal'' 1) 0 = Some NaN
   \<and> cell_at (add_location_features end_x_int64 Truncates example_window 1)
       (Delayed ''end_angle_to_goal'' 0) 0 = Some (Num 7)
   \<and> add_location_features end_x_int64 Refuses example_window 1 = Inl TypeError"
proof -
  have "cell_at (and_then (normalize_window example_window 2)
                  (\<lambda>w. add_location_features all_float64 Refuses w 2))
          (Delayed ''start_angle_to_goal'' 1) 0 = Some NaN"
    using cell_at_angle [OF window_table_normalized float64_x_all_float64, of 1 0 "''start''" Refuses]
    by (simp add: normalize_example_window) (simp add: example_normalized_def)
  moreover have "cell_at (add_location_features end_x_int64 Truncates example_window 1)
                   (Delayed ''end_angle_to_goal'' 0) 0 = Some (Num 7)"
    by (simp add: location_defs end_x_int64_def example_window_def cell_at_def)
  moreover have "add_location_features end_x_int64 Refuses example_window 1 = Inl TypeError"
    by (simp add: location_defs end_x_int64_def example_window_def)
  ultimately show ?thesis by simp
qed

text \<open>
  C4, amended: for every table of windows whose x coordinate columns have the dtype
  float64 (\<open>float64_x dt K\<close>), and every slot and side of it whose coordinates are
  present, the angle-to-goal feature equals \<open>(GOAL_X - x) / |GOAL_Y - y|\<close> when
  \<open>|GOAL_Y - y|\<close> is nonzero and equals 0 when it is exactly 0; for a slot whose y
  coordinate is missing the feature is the missing value NaN. This holds whatever the
  library does with an int64 buffer (\<open>io\<close>).
\<close>

theorem angle_to_goal_of_slot:
  assumes "window_table df K n" and "float64_x dt K" and "s < K" and "i < n"
    and "side = ''start'' \<or> side = ''end''"
    and "cell_at (Inr df) (Delayed (side @ ''_x'') s) i = Some cx"
    and "cell_at (Inr df) (Delayed (side @ ''_y'') s) i = Some cy"
  shows "(\<forall>x y. cx = Num x \<and> cy = Num y \<longrightarrow>
            cell_at (add_location_features dt io df K) (Delayed (side @ ''_angle_to_goal'') s) i
            = Some (Num (if abs (GOAL_Y - y) = 0 then 0 else (GOAL_X - x) / abs (GOAL_Y - y))))
       \<and> (cy = NaN \<longrightarrow>
            cell_at (add_location_features dt io df K) (Delayed (side @ ''_angle_to_goal'') s) i
            = Some NaN)"
proof -
  have c: "side @ ''_x'' \<in> set coords" "side @ ''_y'' \<in> set coords"
    using assms(5) by (auto simp: coords_def)
  from window_tableD(2) [OF assms(1,3) c(1)] window_tableD(2) [OF assms(1,3) c(2)]
  obtain xs ys where
    "map_of df (Delayed (side @ ''_x'') s) = Some xs" "length xs = n"
    "map_of df (Delayed (side @ ''_y'') s) = Some ys" "length ys = n"
    by blast
  with assms(4,6,7) have
    "the (map_of df (Delayed (side @ ''_x'') s)) ! i = cx"
    "the (map_of df (Delayed (side @ ''_y'') s)) ! i = cy"
    by (simp_all add: cell_at_def)
  with cell_at_angle [OF assms(1-5)] show ?thesis
    by (simp add: angle_to_goal_Num)
qed

theorem angle_to_goal_of_slot_witness:
  "cell_at (add_location_features all_float64 Refuses example_window 2)
     (Delayed ''end_angle_to_goal'' 0) 0 = Some (Num (15 / 2))
   \<and> cell_at (add_location_features all_float64 Refuses example_window 2)
     (Delayed ''end_angle_to_goal'' 1) 0 = Some NaN"
  using angle_to_goal_of_slot [of example_window 2 2 all_float64 0 0 "''end''" "Num 60" "Num 40" Refuses]
        angle_to_goal_of_slot [of example_window 2 2 all_float64 1 0 "''end''" NaN NaN Refuses]
  by (simp add: window_table_example float64_x_all_float64)
     (simp add: cell_at_def example_window_def GOAL_X_def GOAL_Y_def PITCH_LENGTH_def PITCH_WIDTH_def)

section \<open>Claims about the one-hot encoding of the action type\<close>

text \<open>
  C6. For every action table, the feature table of a match contains, for slot 0, a
  one-hot indicator column for each value of the action-type enumeration, 1 for the
  action's own type and 0 for the others, whatever types occur in the match. The code
  does not do this: \<^verbatim>\<open>create_features_match\<close> calls \<^verbatim>\<open>add_action_type_dummies\<close>, which
  adds the indicator of each type that occurs (\<open>action_type_dummies\<close>), but the next step,
  \<^verbatim>\<open>create_delayed_features\<close>, keeps only the columns listed in \<^verbatim>\<open>features_to_delay\<close>,
  and the notebook's list names no indicator. On the match of one pass, with columns of
  dtype float64, the table of actions gets the column \<^verbatim>\<open>pass\<close> holding 1, and the
  feature table has the 32 columns below: no \<^verbatim>\<open>pass\<close>, no \<^verbatim>\<open>pass-0\<close>, no indicator
  of any action type.
\<close>

theorem feature_table_has_no_action_type_columns:
  "cell_at (add_action_type_dummies example_actions) (Plain ''pass'') 0 = Some (Num 1)
   \<and> column_names (create_features_match all_float64 Refuses example_actions features_to_delay 1)
   = Inr [Delayed ''game_id'' 0, Delayed ''period_id'' 0, Delayed ''time_seconds'' 0,
          Delayed ''team_id'' 0, Delayed ''player_id'' 0, Delayed ''start_x'' 0,
          Delayed ''start_y'' 0, Delayed ''end_x'' 0, Delayed ''end_y'' 0,
          Delayed ''bodypart_id'' 0, Delayed ''type_id'' 0, Delayed ''result_id'' 0,
          Delayed ''type_name'' 0, Delayed ''result_name'' 0, Delayed ''bodypart_name'' 0,
          Delayed ''time_played'' 0,
          Delayed ''start_x_norm'' 0, Delayed ''start_y_norm'' 0,
          Delayed ''start_distance_to_goal'' 0, Delayed ''start_angle_to_goal'' 0,
          Delayed ''diff_x'' 0, Delayed ''diff_y'' 0, Delayed ''distance_covered'' 0,
          Delayed ''end_x_norm'' 0, Delayed ''end_y_norm'' 0,
          Delayed ''end_distance_to_goal'' 0, Delayed ''end_angle_to_goal'' 0,
          Plain ''xdiff_sequence_pre'', Plain ''ydiff_sequence_pre'', Plain ''time_sequence_pre'',
          Plain ''xdiff_sequence_post'', Plain ''ydiff_sequence_post'']"
proof -
  have "cell_at (add_action_type_dummies example_actions) (Plain ''pass'') 0 = Some (Num 1)"
    by (simp add: add_action_type_dummies_def get_dummies_def merge_on_index_def getcol_def
          example_actions_def cell_at_def)
  moreover have
    "column_names (create_features_match all_float64 Refuses example_actions features_to_delay 1)
   = Inr [Delayed ''game_id'' 0, Delayed ''period_id'' 0, Delayed ''time_seconds'' 0,
          Delayed ''team_id'' 0, Delayed ''player_id'' 0, Delayed ''start_x'' 0,
          Delayed ''start_y'' 0, Delayed ''end_x'' 0, Delayed ''end_y'' 0,
          Delayed ''bodypart_id'' 0, Delayed ''type_id'' 0, Delayed ''result_id'' 0,
          Delayed ''type_name'' 0, Delayed ''result_name'' 0, Delayed ''bodypart_name'' 0,
          Delayed ''time_played'' 0,
          Delayed ''start_x_norm'' 0, Delayed ''start_y_norm'' 0,
          Delayed ''start_distance_to_goal'' 0, Delayed ''start_angle_to_goal'' 0,
          Delayed ''diff_x'' 0, Delayed ''diff_y'' 0, Delayed ''distance_covered'' 0,
          Delayed ''end_x_norm'' 0, Delayed ''end_y_norm'' 0,
          Delayed ''end_distance_to_goal'' 0, Delayed ''end_angle_to_goal'' 0,
          Plain ''xdiff_sequence_pre'', Plain ''ydiff_sequence_pre'', Plain ''time_sequence_pre'',
          Plain ''xdiff_sequence_post'', Plain ''ydiff_sequence_post'']"
    by (simp add: pipeline_defs all_float64_def example_actions_def column_names_def)
  ultimately show ?thesis by simp
qed

section \<open>Claims about the labels\<close>

text \<open>
  C1. For every single-match ordered action table and horizon \<open>H >= 1\<close>, the labels of
  the final action are those of a horizon holding only that action: \<open>scores\<close> is true iff
  it is a shot with a goal-scoring result, \<open>concedes\<close> iff it is a shot with an own-goal
  result; the fill with the last row changes no label relative to the truncated horizon.
  For \<open>H >= 2\<close> the code does this (\<open>final_action_labels_from_two\<close>,
  \<open>label_scores_from_two\<close>, \<open>label_concedes_from_two\<close>). For \<open>H = 1\<close> it does not: no
  pass of the loops runs, \<open>scores\<close> is still the series named \<^verbatim>\<open>goal\<close>, and
  \<^verbatim>\<open>pd.DataFrame(scores, columns=['scores'])\<close> finds no data under the name
  \<^verbatim>\<open>scores\<close>. On the match of one scoring shot the label tables have no row, where the
  claim says \<open>scores\<close> is true; with \<open>H = 2\<close> the same match gets the label.
\<close>

theorem final_action_horizon_one_no_labels:
  "label_scores example_goal 1 = Inr [(Plain ''scores'', [])]
   \<and> label_concedes example_goal 1 = Inr [(Plain ''concedes'', [])]
   \<and> cell_at (label_scores example_goal 1) (Plain ''scores'') 0 = None
   \<and> cell_at (label_scores example_goal 2) (Plain ''scores'') 0 = Some (Flag True)"
  by (simp add: label_defs example_goal_def cell_at_def numeral_2_eq_2)

text \<open>
  C2. For every single-match ordered action table, horizon \<open>H >= 1\<close> and action index
  \<open>i\<close>, \<open>scores[i]\<close> is true exactly when some action in positions \<open>i..i+H-1\<close> (clipped
  to the match) is a scoring shot by the team of action \<open>i\<close> or an own-goal shot by
  another team, and \<open>concedes[i]\<close> exactly under the mirrored condition. For \<open>H >= 2\<close>
  the code does this (\<open>label_scores_from_two\<close>, \<open>label_concedes_from_two\<close>). For
  \<open>H = 1\<close> both label tables come out without rows, by the defect described at C1: on
  the match that ends with an own goal of team 7 the claim says \<open>concedes[2]\<close> is true,
  as the code finds with \<open>H = 3\<close>.
\<close>

theorem horizon_one_no_labels:
  "label_scores example_match 1 = Inr [(Plain ''scores'', [])]
   \<and> label_concedes example_match 1 = Inr [(Plain ''concedes'', [])]
   \<and> label_concedes example_match 3
       = Inr [(Plain ''concedes'', [Flag True, Flag False, Flag True])]"
  by (simp add: label_defs example_match_def numeral_3_eq_3)

end
